theory Spec2Isabelle
  imports Complex_Main "HOL-Library.Sublist"
begin

text \<open>
  A shallow embedding of the index engine of \<open>codebase-indexer-cli\<close>: the glob matcher and
  the keyword extraction of \<open>Utils\<close>, the store and the indexing of \<open>IndexerCore\<close>, the
  search of \<open>IndexerQuery\<close>, and the candidate test of \<open>ConfigManager\<close>. Each function of
  the source is a function of the same name here; the objects that the source uses as
  dictionaries are modelled with the property order and the inherited members that the
  language gives them.
\<close>

section \<open>JavaScript strings\<close>

text \<open>
  A JavaScript string is a sequence of UTF-16 code units. The embedding writes one
  \<^typ>\<open>char\<close> per code unit and so covers the strings whose code units are below 256
  (ASCII and Latin-1); every literal of the source is of that kind, the section sign of
  the \<open>DOUBLESTAR\<close> placeholder included (code unit \<open>0xA7\<close>).
\<close>

abbreviation backslash :: char where
  "backslash \<equiv> CHR 0x5C"

definition code_unit :: "char \<Rightarrow> nat" where
  "code_unit c = of_char c"

definition is_digit :: "char \<Rightarrow> bool" where
  "is_digit c = (48 \<le> code_unit c \<and> code_unit c \<le> 57)"

definition is_lower :: "char \<Rightarrow> bool" where
  "is_lower c = (97 \<le> code_unit c \<and> code_unit c \<le> 122)"

definition is_upper :: "char \<Rightarrow> bool" where
  "is_upper c = (65 \<le> code_unit c \<and> code_unit c \<le> 90)"

definition is_word_char :: "char \<Rightarrow> bool" where
  \<comment> \<open>the class \<open>\w\<close> of a regular expression without the unicode flag\<close>
  "is_word_char c = (is_lower c \<or> is_upper c \<or> is_digit c \<or> c = CHR ''_'')"

definition is_space :: "char \<Rightarrow> bool" where
  \<comment> \<open>the class \<open>\s\<close> below code unit 256: tab, line feed, vertical tab, form feed,
      carriage return, space, no-break space\<close>
  "is_space c = (c \<in> set [CHR 0x09, CHR 0x0A, CHR 0x0B, CHR 0x0C, CHR 0x0D, CHR 0x20, CHR 0xA0])"

definition lower_char :: "char \<Rightarrow> char" where
  \<comment> \<open>\<open>toLowerCase\<close> on one code unit below 256: A-Z and the Latin-1 capitals
      \<open>0xC0-0xDE\<close> (the multiplication sign \<open>0xD7\<close> apart) move up by 32\<close>
  "lower_char c =
     (let n = code_unit c
      in if (65 \<le> n \<and> n \<le> 90) \<or> (192 \<le> n \<and> n \<le> 222 \<and> n \<noteq> 215)
         then char_of (n + 32) else c)"

definition toLowerCase :: "string \<Rightarrow> string" where
  "toLowerCase s = map lower_char s"

definition startsWith :: "string \<Rightarrow> string \<Rightarrow> bool" where
  "startsWith s t = (take (length t) s = t)"

definition endsWith :: "string \<Rightarrow> string \<Rightarrow> bool" where
  "endsWith s t = (length t \<le> length s \<and> drop (length s - length t) s = t)"

fun str_includes :: "string \<Rightarrow> string \<Rightarrow> bool" where
  \<comment> \<open>\<open>s.includes(t)\<close>: \<open>t\<close> occurs in \<open>s\<close> as a contiguous run\<close>
  "str_includes [] t = (t = [])"
| "str_includes (c # cs) t = (startsWith (c # cs) t \<or> str_includes cs t)"

fun split_on :: "(char \<Rightarrow> bool) \<Rightarrow> string \<Rightarrow> string list" where
  \<comment> \<open>\<open>s.split(sep)\<close> for a separator that is one character of a class; the result is
      never empty, \<open>''''.split(sep)\<close> is the list of the empty string\<close>
  "split_on p [] = [[]]"
| "split_on p (c # cs) =
     (if p c then [] # split_on p cs
      else (case split_on p cs of [] \<Rightarrow> [[c]] | w # ws \<Rightarrow> (c # w) # ws))"

function replace_all :: "string \<Rightarrow> string \<Rightarrow> string \<Rightarrow> string" where
  \<comment> \<open>\<open>s.replace(/needle/g, rep)\<close> for a literal needle: leftmost occurrences, not
      overlapping, left to right\<close>
  "replace_all needle rep [] = []"
| "replace_all needle rep (c # cs) =
     (if needle \<noteq> [] \<and> startsWith (c # cs) needle
      then rep @ replace_all needle rep (drop (length needle) (c # cs))
      else c # replace_all needle rep cs)"
  by pat_completeness auto
termination
  by (relation "measure (\<lambda>(needle, rep, s). length s)") (auto simp: neq_Nil_conv)

section \<open>The regular expressions that matchGlob builds\<close>

text \<open>
  \<open>matchGlob\<close> hands the text it has built, between \<open>^\<close> and \<open>$\<close>, to \<open>new RegExp\<close>.
  The fragment modelled is the one its own replacements produce: literal characters,
  an escaped character (\<open>\.\<close>), the dot, the class \<open>[^/]\<close>, each optionally
  followed by \<open>*\<close>. Any other construct of the regular expression language in the
  pattern text (groups, alternation, other classes, \<open>+\<close>, braces, letter escapes such as
  \<open>\d\<close>) is outside the fragment and yields \<open>None\<close>.
\<close>

datatype atom = Lit char | AnyCh | NotSlash

type_synonym item = "atom \<times> bool"

fun atom_ok :: "atom \<Rightarrow> char \<Rightarrow> bool" where
  "atom_ok (Lit l) c = (c = l)"
| "atom_ok AnyCh c = (c \<noteq> CHR 0x0A \<and> c \<noteq> CHR 0x0D)"
| "atom_ok NotSlash c = (c \<noteq> CHR ''/'')"

definition star_split :: "string \<Rightarrow> bool \<times> string" where
  \<comment> \<open>is the atom just read followed by \<open>*\<close>, and what follows it\<close>
  "star_split r = (case r of [] \<Rightarrow> (False, []) | c # r' \<Rightarrow> if c = CHR ''*'' then (True, r') else (False, c # r'))"

lemma star_split_length: "length (snd (star_split r)) \<le> length r"
  by (simp add: star_split_def split: list.splits)

definition with_item :: "atom \<Rightarrow> bool \<Rightarrow> item list option \<Rightarrow> item list option" where
  "with_item a st r = map_option ((#) (a, st)) r"

function re_items :: "string \<Rightarrow> item list option" where
  \<comment> \<open>the items of a source text up to its closing \<open>$\<close>\<close>
  "re_items [] = None"
| "re_items (c # cs) =
     (if c = CHR ''$'' then (if cs = [] then Some [] else None)
      else if c = backslash then
        (case cs of [] \<Rightarrow> None
         | e # r \<Rightarrow> if is_word_char e then None
                    else with_item (Lit e) (fst (star_split r)) (re_items (snd (star_split r))))
      else if c = CHR ''['' then
        (if take 3 cs = ''^/]''
         then with_item NotSlash (fst (star_split (drop 3 cs))) (re_items (snd (star_split (drop 3 cs))))
         else None)
      else if c = CHR ''.'' then
        with_item AnyCh (fst (star_split cs)) (re_items (snd (star_split cs)))
      else if c \<in> set ''*+?()]{}|^'' then None
      else with_item (Lit c) (fst (star_split cs)) (re_items (snd (star_split cs))))"
  by pat_completeness auto
termination
proof (relation "measure length", goal_cases)
  case 1
  show ?case by simp
next
  case (2 c cs e r)
  show ?case using star_split_length [of r] 2 by simp
next
  case (3 c cs)
  show ?case using star_split_length [of "drop 3 cs"] by simp
next
  case (4 c cs)
  show ?case using star_split_length [of cs] by simp
next
  case (5 c cs)
  show ?case using star_split_length [of cs] by simp
qed

fun re_match :: "item list \<Rightarrow> string \<Rightarrow> bool" where
  \<comment> \<open>does the whole string match the sequence of items\<close>
  "re_match [] s = (s = [])"
| "re_match ((a, False) # r) [] = False"
| "re_match ((a, False) # r) (c # cs) = (atom_ok a c \<and> re_match r cs)"
| "re_match ((a, True) # r) [] = re_match r []"
| "re_match ((a, True) # r) (c # cs) =
     (re_match r (c # cs) \<or> (atom_ok a c \<and> re_match ((a, True) # r) cs))"

definition regex_test :: "string \<Rightarrow> string \<Rightarrow> bool option" where
  \<comment> \<open>\<open>new RegExp(source).test(s)\<close> for a source that opens with \<open>^\<close>\<close>
  "regex_test source s =
     (case source of [] \<Rightarrow> None
      | c # cs \<Rightarrow> if c = CHR ''^'' then map_option (\<lambda>items. re_match items s) (re_items cs)
                   else None)"

section \<open>Utils.matchGlob\<close>

definition DOUBLESTAR :: string where
  "DOUBLESTAR = CHR 0xA7 # ''DOUBLESTAR'' @ [CHR 0xA7]"

definition ext_tail :: "string \<Rightarrow> bool" where
  \<comment> \<open>the text, to its end, reads \<open>**/*.\<close> and then one or more word characters\<close>
  "ext_tail t = (startsWith t ''**/*.'' \<and> drop 5 t \<noteq> [] \<and> list_all is_word_char (drop 5 t))"

fun ext_pattern :: "string \<Rightarrow> bool" where
  \<comment> \<open>\<open>pattern.match(/\*\*\/\*\.\w+$/)\<close>: the search is not anchored on the left\<close>
  "ext_pattern [] = False"
| "ext_pattern (c # cs) = (ext_tail (c # cs) \<or> ext_pattern cs)"

definition is_sep :: "char \<Rightarrow> bool" where
  "is_sep c = (c = CHR ''/'' \<or> c = backslash)"

definition regexPattern :: "string \<Rightarrow> string" where
  "regexPattern pattern =
     replace_all ''.'' [backslash, CHR ''.'']
       (replace_all ''?'' ''.''
         (replace_all DOUBLESTAR ''.*''
           (replace_all ''*'' ''[^/]*''
             (replace_all ''**'' DOUBLESTAR pattern))))"

definition matchGlob :: "string \<Rightarrow> string \<Rightarrow> bool option" where
  "matchGlob filePath pattern =
     (if ext_pattern pattern then
        (let ext = last (split_on (\<lambda>c. c = CHR ''.'') pattern);
             lastSegment = last (split_on is_sep filePath)
         in Some (endsWith lastSegment (CHR ''.'' # ext)))
      else regex_test (''^'' @ regexPattern pattern @ ''$'') filePath)"

section \<open>JavaScript numbers\<close>

text \<open>
  A number of the program is an IEEE double. A finite double is a rational number, and
  an arithmetic operation returns the exact result rounded to a double. The rounding is a
  parameter \<open>rnd\<close> of the model, so that no result depends on how a double rounds.
  \<open>NaN\<close> is a value of its own: it absorbs every operation and fails every comparison.
\<close>

datatype jsnum = NaN | Num rat

definition num_add :: "(rat \<Rightarrow> rat) \<Rightarrow> jsnum \<Rightarrow> jsnum \<Rightarrow> jsnum" where
  "num_add rnd a b = (case a of NaN \<Rightarrow> NaN | Num x \<Rightarrow> (case b of NaN \<Rightarrow> NaN | Num y \<Rightarrow> Num (rnd (x + y))))"

definition num_mul :: "(rat \<Rightarrow> rat) \<Rightarrow> jsnum \<Rightarrow> jsnum \<Rightarrow> jsnum" where
  "num_mul rnd a b = (case a of NaN \<Rightarrow> NaN | Num x \<Rightarrow> (case b of NaN \<Rightarrow> NaN | Num y \<Rightarrow> Num (rnd (x * y))))"

definition num_div5 :: "(rat \<Rightarrow> rat) \<Rightarrow> jsnum \<Rightarrow> jsnum" where
  \<comment> \<open>\<open>a / 5\<close>\<close>
  "num_div5 rnd a = (case a of NaN \<Rightarrow> NaN | Num x \<Rightarrow> Num (rnd (x / 5)))"

definition num_min :: "jsnum \<Rightarrow> jsnum \<Rightarrow> jsnum" where
  \<comment> \<open>\<open>Math.min(a, b)\<close>\<close>
  "num_min a b = (case a of NaN \<Rightarrow> NaN | Num x \<Rightarrow> (case b of NaN \<Rightarrow> NaN | Num y \<Rightarrow> Num (min x y)))"

definition num_ge :: "jsnum \<Rightarrow> jsnum \<Rightarrow> bool" where
  \<comment> \<open>\<open>a >= b\<close>\<close>
  "num_ge a b = (case a of NaN \<Rightarrow> False | Num x \<Rightarrow> (case b of NaN \<Rightarrow> False | Num y \<Rightarrow> y \<le> x))"

definition num_sub :: "jsnum \<Rightarrow> jsnum \<Rightarrow> jsnum" where
  \<comment> \<open>\<open>a - b\<close> as a comparator computes it: only its sign is used, and the rounded
      difference of two doubles has the sign of the exact one\<close>
  "num_sub a b = (case a of NaN \<Rightarrow> NaN | Num x \<Rightarrow> (case b of NaN \<Rightarrow> NaN | Num y \<Rightarrow> Num (x - y)))"

section \<open>Array.prototype.sort\<close>

text \<open>
  \<open>xs.sort(comparefn)\<close> is stable, and an element \<open>x\<close> is moved behind \<open>y\<close> only where
  \<open>comparefn(x, y)\<close> is positive; \<open>NaN\<close> counts as zero. For a consistent comparator
  the result is determined, and it is the one computed here by insertion. Where the
  comparator is not consistent the language leaves the order to the implementation, and
  the model then gives one possible order.
\<close>

definition positive :: "jsnum \<Rightarrow> bool" where
  "positive d = (case d of NaN \<Rightarrow> False | Num x \<Rightarrow> 0 < x)"

fun sort_insert :: "('a \<Rightarrow> 'a \<Rightarrow> jsnum) \<Rightarrow> 'a \<Rightarrow> 'a list \<Rightarrow> 'a list" where
  "sort_insert cmp x [] = [x]"
| "sort_insert cmp x (y # ys) =
     (if positive (cmp x y) then y # sort_insert cmp x ys else x # y # ys)"

definition js_sort :: "('a \<Rightarrow> 'a \<Rightarrow> jsnum) \<Rightarrow> 'a list \<Rightarrow> 'a list" where
  "js_sort cmp xs = foldr (sort_insert cmp) xs []"

section \<open>Plain objects used as dictionaries\<close>

text \<open>
  An object is the list of its own properties in property order: the keys that are
  array indices first, in ascending numeric order, then the other keys in the order of
  their creation. \<open>Object.entries\<close> is the list itself. A read of a key that is not an
  own property goes on to \<open>Object.prototype\<close>.
\<close>

definition dec_value :: "string \<Rightarrow> int" where
  "dec_value k = foldl (\<lambda>n c. 10 * n + (int (code_unit c) - 48)) 0 k"

definition is_array_index :: "string \<Rightarrow> bool" where
  \<comment> \<open>the canonical decimal numeral of an integer from 0 to \<open>2^32 - 2\<close>\<close>
  "is_array_index k =
     (k \<noteq> [] \<and> list_all is_digit k \<and> (k = ''0'' \<or> hd k \<noteq> CHR ''0'')
      \<and> dec_value k \<le> 4294967294)"

fun insert_index :: "string \<Rightarrow> 'v \<Rightarrow> (string \<times> 'v) list \<Rightarrow> (string \<times> 'v) list" where
  "insert_index k v [] = [(k, v)]"
| "insert_index k v (e # es) =
     (if is_array_index (fst e) \<and> dec_value (fst e) < dec_value k
      then e # insert_index k v es else (k, v) # e # es)"

definition js_put :: "string \<Rightarrow> 'v \<Rightarrow> (string \<times> 'v) list \<Rightarrow> (string \<times> 'v) list" where
  \<comment> \<open>create or overwrite the own property \<open>k\<close>\<close>
  "js_put k v obj =
     (if k \<in> set (map fst obj) then map (\<lambda>e. if fst e = k then (k, v) else e) obj
      else if is_array_index k then insert_index k v obj
      else obj @ [(k, v)])"

definition js_delete :: "string \<Rightarrow> (string \<times> 'v) list \<Rightarrow> (string \<times> 'v) list" where
  \<comment> \<open>\<open>delete obj[k]\<close>\<close>
  "js_delete k obj = filter (\<lambda>e. fst e \<noteq> k) obj"

definition fromEntries :: "(string \<times> 'v) list \<Rightarrow> (string \<times> 'v) list" where
  \<comment> \<open>\<open>Object.fromEntries\<close>\<close>
  "fromEntries es = foldl (\<lambda>obj e. js_put (fst e) (snd e) obj) [] es"

definition object_prototype_names :: "string list" where
  \<comment> \<open>the members that every plain object inherits from \<open>Object.prototype\<close>\<close>
  "object_prototype_names =
     [''constructor'', ''__defineGetter__'', ''__defineSetter__'', ''hasOwnProperty'',
      ''__lookupGetter__'', ''__lookupSetter__'', ''isPrototypeOf'', ''propertyIsEnumerable'',
      ''toString'', ''valueOf'', ''__proto__'', ''toLocaleString'']"

datatype 'v member = Own 'v | Builtin | Undefined

definition js_get :: "(string \<times> 'v) list \<Rightarrow> string \<Rightarrow> 'v member" where
  \<comment> \<open>\<open>obj[k]\<close> on an object whose prototype is \<open>Object.prototype\<close>: an own property,
      an inherited member (a function; the prototype itself for \<open>__proto__\<close>), or
      \<open>undefined\<close>\<close>
  "js_get obj k =
     (case map_of obj k of Some v \<Rightarrow> Own v
      | None \<Rightarrow> if k \<in> set object_prototype_names then Builtin else Undefined)"

section \<open>Utils.extractKeywords\<close>

text \<open>
  A value of the frequency table is a count, or, where the table was read at a key it
  inherits, a string: \<open>freq[word] || 0\<close> is then the inherited member, and adding 1
  to it concatenates. \<open>MemberText w k\<close> is the text of the member \<open>w\<close> of
  \<open>Object.prototype\<close> followed by \<open>k\<close> times the digit 1.
\<close>

datatype hval = Count nat | MemberText string nat

type_synonym histogram = "(string \<times> hval) list"

function split_runs :: "(char \<Rightarrow> bool) \<Rightarrow> string \<Rightarrow> string list" where
  \<comment> \<open>\<open>s.split(/\s+/)\<close>: the separator is a maximal run of characters of the class\<close>
  "split_runs p [] = [[]]"
| "split_runs p (c # cs) =
     (if p c then [] # split_runs p (dropWhile p cs)
      else (case split_runs p cs of [] \<Rightarrow> [[c]] | w # ws \<Rightarrow> (c # w) # ws))"
  by pat_completeness auto
termination
  by (relation "measure (\<lambda>(p, s). length s)") (auto simp: length_dropWhile_le less_Suc_eq_le)

definition keyword_words :: "string \<Rightarrow> string list" where
  \<comment> \<open>\<open>text.toLowerCase().replace(/[^a-z0-9\s]/g, ' ').split(/\s+/).filter(w => w.length > 3)\<close>\<close>
  "keyword_words text =
     filter (\<lambda>w. length w > 3)
       (split_runs is_space
         (map (\<lambda>c. if is_lower c \<or> is_digit c \<or> is_space c then c else CHR '' '')
           (toLowerCase text)))"

definition count_word :: "histogram \<Rightarrow> string \<Rightarrow> histogram" where
  \<comment> \<open>\<open>freq[word] = (freq[word] || 0) + 1\<close>; an assignment of a string to the key
      \<open>__proto__\<close>, where it is not an own property, is ignored by the language\<close>
  "count_word freq word =
     (case js_get freq word of
        Own (Count n) \<Rightarrow> js_put word (Count (n + 1)) freq
      | Own (MemberText w k) \<Rightarrow> js_put word (MemberText w (k + 1)) freq
      | Builtin \<Rightarrow> if word = ''__proto__'' then freq else js_put word (MemberText word 1) freq
      | Undefined \<Rightarrow> js_put word (Count 1) freq)"

definition stopWords :: "string list" where
  "stopWords =
     [''this'', ''that'', ''with'', ''from'', ''have'', ''will'', ''would'', ''could'',
      ''should'', ''about'', ''which'', ''their'', ''there'', ''where'', ''when'',
      ''what'', ''them'', ''then'', ''than'', ''these'', ''those'', ''some'', ''into'',
      ''only'', ''also'', ''over'', ''such'', ''just'', ''more'', ''very'', ''been'',
      ''were'', ''they'', ''been'', ''have'', ''make'', ''after'', ''before'', ''through'']"

definition to_number :: "hval \<Rightarrow> jsnum" where
  \<comment> \<open>the value of a table entry as a number\<close>
  "to_number v = (case v of Count n \<Rightarrow> Num (of_nat n) | MemberText w k \<Rightarrow> NaN)"

definition by_frequency :: "string \<times> hval \<Rightarrow> string \<times> hval \<Rightarrow> jsnum" where
  \<comment> \<open>the comparator \<open>(a, b) => b[1] - a[1]\<close>\<close>
  "by_frequency a b = num_sub (to_number (snd b)) (to_number (snd a))"

definition extractKeywords :: "string \<Rightarrow> nat \<Rightarrow> histogram" where
  "extractKeywords text maxKeywords =
     (let words = keyword_words text;
          freq = foldl count_word [] words;
          filtered = take maxKeywords
                       (js_sort by_frequency
                         (filter (\<lambda>e. fst e \<notin> set stopWords) freq))
      in fromEntries filtered)"

section \<open>The world outside the program\<close>

text \<open>
  The file system and the library functions of the platform (\<open>fs\<close>, \<open>path\<close>, \<open>crypto\<close>,
  \<open>JSON\<close>, the clock) are parameters of the model, collected in one record. A call that
  can throw returns a sum: \<open>Inl\<close> carries the message of the error thrown.
\<close>

record stats =
  st_size :: int
  st_mtime :: string

text \<open>
  A size in bytes is an \<open>int\<close>. The fields \<open>content\<close>, \<open>hash\<close>, \<open>size\<close>, \<open>lines\<close> and \<open>extension\<close> of a file
  record carry the prefix \<open>file_\<close> here, and the dictionary \<open>keywords\<close> of the
  database is the field \<open>file_keywords\<close>.
\<close>

record file_record =
  file_path :: string
  file_content :: string
  file_hash :: string
  file_size :: int
  file_lines :: nat
  file_extension :: string
  modified_at :: string
  indexed_at :: string

record database =
  files :: "(string \<times> file_record) list"
  file_keywords :: "(string \<times> histogram) list"
  metadata :: "(string \<times> string) list"
  version :: "string option"

record env =
  readFileSync :: "string \<Rightarrow> string + string"
  statSync :: "string \<Rightarrow> string + stats"
  existsSync :: "string \<Rightarrow> bool"
  writeFileSync :: "string \<Rightarrow> string option"
  path_relative :: "string \<Rightarrow> string \<Rightarrow> string"
  path_extname :: "string \<Rightarrow> string"
  path_normalize :: "string \<Rightarrow> string"
  md5 :: "string \<Rightarrow> string"
  JSON_parse :: "string \<Rightarrow> string + database"
  getTimestamp :: string

text \<open>
  \<open>writeFileSync env p\<close> is \<open>None\<close> where the write succeeds and the message of the
  error otherwise. \<open>JSON_parse\<close> returns the document read as a database; a document
  that is valid JSON of another shape is outside the model.
\<close>

definition getHash :: "env \<Rightarrow> string \<Rightarrow> string" where
  "getHash e content = md5 e content"

definition getRelativePath :: "env \<Rightarrow> string \<Rightarrow> string \<Rightarrow> string" where
  "getRelativePath e from to = replace_all [backslash] ''/'' (path_relative e from to)"

definition getExtension :: "env \<Rightarrow> string \<Rightarrow> string" where
  "getExtension e filePath = toLowerCase (path_extname e filePath)"

definition countLines :: "string \<Rightarrow> nat" where
  "countLines content = length (split_on (\<lambda>c. c = CHR 0x0A) content)"

definition getStatsSafe :: "env \<Rightarrow> string \<Rightarrow> stats option" where
  "getStatsSafe e filePath = (case statSync e filePath of Inl err \<Rightarrow> None | Inr st \<Rightarrow> Some st)"

section \<open>IndexerCore\<close>

text \<open>
  The state of an \<open>IndexerCore\<close>: the database in memory, the path of its document, the
  document last written with success, and the number of writes attempted. The two
  dictionaries of the database are plain objects; an assignment to their key
  \<open>__proto__\<close> does not create a property but replaces the prototype of the object, which
  the state records in \<open>files_proto\<close> and \<open>keywords_proto\<close> (\<open>None\<close>: the prototype is
  \<open>Object.prototype\<close>).
\<close>

record core =
  db :: database
  files_proto :: "file_record option"
  keywords_proto :: "histogram option"
  dbPath :: string
  persisted :: "database option"
  writes :: nat

definition empty_database :: database where
  \<comment> \<open>\<open>{ files: {}, keywords: {}, metadata: {}, version: '1.0.0' }\<close>\<close>
  "empty_database = \<lparr>files = [], file_keywords = [], metadata = [], version = Some ''1.0.0''\<rparr>"

definition loadDatabase :: "env \<Rightarrow> string \<Rightarrow> database" where
  "loadDatabase e path =
     (if existsSync e path then
        (case readFileSync e path of
           Inl err \<Rightarrow> empty_database
         | Inr data \<Rightarrow> (case JSON_parse e data of Inl err \<Rightarrow> empty_database | Inr d \<Rightarrow> d))
      else empty_database)"

definition IndexerCore :: "env \<Rightarrow> string \<Rightarrow> core" where
  \<comment> \<open>the constructor, given the path of the document of the project\<close>
  "IndexerCore e path =
     \<lparr>db = loadDatabase e path, files_proto = None, keywords_proto = None,
      dbPath = path, persisted = None, writes = 0\<rparr>"

definition saveDatabase :: "env \<Rightarrow> core \<Rightarrow> bool \<times> core" where
  \<comment> \<open>\<open>JSON.stringify\<close> writes the own properties only\<close>
  "saveDatabase e s =
     (case writeFileSync e (dbPath s) of
        None \<Rightarrow> (True, s\<lparr>persisted := Some (db s), writes := writes s + 1\<rparr>)
      | Some err \<Rightarrow> (False, s\<lparr>writes := writes s + 1\<rparr>))"

datatype looked = Record file_record | Primitive bool | Inherited | Missing

definition field_truthy :: "file_record \<Rightarrow> string \<Rightarrow> bool option" where
  \<comment> \<open>is the field of that name, if there is one, a truthy value\<close>
  "field_truthy r k =
     (if k = ''file_path'' then Some (file_path r \<noteq> [])
      else if k = ''content'' then Some (file_content r \<noteq> [])
      else if k = ''hash'' then Some (file_hash r \<noteq> [])
      else if k = ''size'' then Some (file_size r \<noteq> 0)
      else if k = ''lines'' then Some (file_lines r \<noteq> 0)
      else if k = ''extension'' then Some (file_extension r \<noteq> [])
      else if k = ''modified_at'' then Some (modified_at r \<noteq> [])
      else if k = ''indexed_at'' then Some (indexed_at r \<noteq> [])
      else None)"

definition files_get :: "core \<Rightarrow> string \<Rightarrow> looked" where
  \<comment> \<open>\<open>this.db.files[k]\<close>: an own property; else, through \<open>__proto__\<close>, the prototype;
      else a field of a record that has become the prototype; else a member of
      \<open>Object.prototype\<close>; else \<open>undefined\<close>\<close>
  "files_get s k =
     (case map_of (files (db s)) k of
        Some r \<Rightarrow> Record r
      | None \<Rightarrow>
          if k = ''__proto__'' then (case files_proto s of Some p \<Rightarrow> Record p | None \<Rightarrow> Inherited)
          else (case (case files_proto s of Some p \<Rightarrow> field_truthy p k | None \<Rightarrow> None) of
                  Some b \<Rightarrow> Primitive b
                | None \<Rightarrow> if k \<in> set object_prototype_names then Inherited else Missing))"

definition truthy :: "looked \<Rightarrow> bool" where
  "truthy v = (case v of Record r \<Rightarrow> True | Primitive b \<Rightarrow> b | Inherited \<Rightarrow> True | Missing \<Rightarrow> False)"

definition has_hash :: "looked \<Rightarrow> string \<Rightarrow> bool" where
  \<comment> \<open>\<open>v && v.hash === h\<close>: only a record has a \<open>hash\<close>\<close>
  "has_hash v h = (case v of Record r \<Rightarrow> file_hash r = h | Primitive b \<Rightarrow> False | Inherited \<Rightarrow> False | Missing \<Rightarrow> False)"

definition files_set :: "string \<Rightarrow> file_record \<Rightarrow> core \<Rightarrow> core" where
  \<comment> \<open>\<open>this.db.files[k] = r\<close>\<close>
  "files_set k r s =
     (if k = ''__proto__'' \<and> k \<notin> set (map fst (files (db s))) then s\<lparr>files_proto := Some r\<rparr>
      else s\<lparr>db := (db s)\<lparr>files := js_put k r (files (db s))\<rparr>\<rparr>)"

definition keywords_set :: "string \<Rightarrow> histogram \<Rightarrow> core \<Rightarrow> core" where
  \<comment> \<open>\<open>this.db.keywords[k] = h\<close>\<close>
  "keywords_set k h s =
     (if k = ''__proto__'' \<and> k \<notin> set (map fst (file_keywords (db s))) then s\<lparr>keywords_proto := Some h\<rparr>
      else s\<lparr>db := (db s)\<lparr>file_keywords := js_put k h (file_keywords (db s))\<rparr>\<rparr>)"

datatype index_result =
    Indexed string int
  | Unchanged string
  | IndexError string string

definition indexFile :: "env \<Rightarrow> string \<Rightarrow> string \<Rightarrow> core \<Rightarrow> index_result \<times> core" where
  "indexFile e filePath projectPath s =
     (let relativePath = getRelativePath e projectPath filePath in
      case readFileSync e filePath of
        Inl err \<Rightarrow> (IndexError filePath err, s)
      | Inr content \<Rightarrow>
          (let hash = getHash e content in
           case statSync e filePath of
             Inl err \<Rightarrow> (IndexError filePath err, s)
           | Inr stats \<Rightarrow>
               if has_hash (files_get s relativePath) hash then (Unchanged relativePath, s)
               else
                 (let extension = getExtension e filePath;
                      lines = countLines content;
                      keywords = extractKeywords content 20;
                      s1 = files_set relativePath
                             \<lparr>file_path = relativePath, file_content = content, file_hash = hash,
                              file_size = st_size stats, file_lines = lines,
                              file_extension = extension,
                              modified_at = st_mtime stats, indexed_at = getTimestamp e\<rparr> s;
                      s2 = keywords_set relativePath keywords s1;
                      s3 = snd (saveDatabase e s2)
                  in (Indexed relativePath (st_size stats), s3))))"

definition removeFile :: "env \<Rightarrow> string \<Rightarrow> string \<Rightarrow> core \<Rightarrow> bool \<times> core" where
  "removeFile e filePath projectPath s =
     (let relativePath = getRelativePath e projectPath filePath;
          existed = truthy (files_get s relativePath);
          s1 = s\<lparr>db := (db s)\<lparr>files := js_delete relativePath (files (db s)),
                                file_keywords := js_delete relativePath (file_keywords (db s))\<rparr>\<rparr>
      in if existed then (existed, snd (saveDatabase e s1)) else (existed, s1))"

definition getAllFiles :: "core \<Rightarrow> file_record list" where
  \<comment> \<open>\<open>Object.values(this.db.files)\<close>\<close>
  "getAllFiles s = map snd (files (db s))"

definition clear :: "env \<Rightarrow> core \<Rightarrow> core" where
  "clear e s =
     snd (saveDatabase e (s\<lparr>db := empty_database, files_proto := None, keywords_proto := None\<rparr>))"

section \<open>IndexerQuery\<close>

definition query_loadDatabase :: "env \<Rightarrow> string \<Rightarrow> database" where
  \<comment> \<open>\<open>IndexerQuery.loadDatabase\<close>: its empty database has no \<open>version\<close>\<close>
  "query_loadDatabase e path =
     (if existsSync e path then
        (case readFileSync e path of
           Inl err \<Rightarrow> \<lparr>files = [], file_keywords = [], metadata = [], version = None\<rparr>
         | Inr data \<Rightarrow>
             (case JSON_parse e data of
                Inl err \<Rightarrow> \<lparr>files = [], file_keywords = [], metadata = [], version = None\<rparr>
              | Inr d \<Rightarrow> d))
      else \<lparr>files = [], file_keywords = [], metadata = [], version = None\<rparr>)"

section \<open>Utils.createSnippet\<close>

fun join :: "string \<Rightarrow> string list \<Rightarrow> string" where
  \<comment> \<open>\<open>parts.join(sep)\<close>\<close>
  "join sep [] = []"
| "join sep [x] = x"
| "join sep (x # y # r) = x @ sep @ join sep (y # r)"

fun find_line :: "string \<Rightarrow> string list \<Rightarrow> nat \<Rightarrow> nat option" where
  \<comment> \<open>the index of the first line, counted from \<open>i\<close>, that holds the term in lower case\<close>
  "find_line searchLower [] i = None"
| "find_line searchLower (l # ls) i =
     (if str_includes (toLowerCase l) searchLower then Some i
      else find_line searchLower ls (i + 1))"

definition createSnippet :: "string \<Rightarrow> string \<Rightarrow> nat \<Rightarrow> nat \<times> string" where
  \<comment> \<open>the line number and the snippet; the text \<open>context\<close> of the source, which
      \<open>search\<close> drops, is left out\<close>
  "createSnippet text searchTerm contextLines =
     (let ls = split_on (\<lambda>c. c = CHR 0x0A) text;
          searchLower = toLowerCase searchTerm
      in case find_line searchLower ls 0 of
           Some i \<Rightarrow>
             (let start = i - contextLines;
                  end = min (length ls) (i + contextLines + 1)
              in (i + 1, join [CHR 0x0A] (take (end - start) (drop start ls))))
         | None \<Rightarrow> (1, join [CHR 0x0A] (take 5 ls)))"

section \<open>IndexerQuery.search\<close>

text \<open>
  \<open>maxResults\<close> is a number of results, a natural number; \<open>minScore\<close> is any number,
  \<open>NaN\<close> included. An option that is not given is \<open>None\<close>, and the value of the
  configuration is used in its place.
\<close>

record search_config =
  cfg_maxResults :: nat
  cfg_minScore :: jsnum

record search_options =
  maxResults :: "nat option"
  minScore :: "jsnum option"

record result =
  result_filePath :: string
  result_score :: jsnum
  result_snippet :: string
  result_lineNumber :: nat
  result_matchType :: string

definition member_truthy :: "hval member \<Rightarrow> bool" where
  \<comment> \<open>\<open>if (keywords[word])\<close>: a count other than 0, a non-empty string, or an
      inherited member\<close>
  "member_truthy m =
     (case m of Own v \<Rightarrow> (case v of Count n \<Rightarrow> n \<noteq> 0 | MemberText w k \<Rightarrow> True)
      | Builtin \<Rightarrow> True | Undefined \<Rightarrow> False)"

definition member_number :: "hval member \<Rightarrow> jsnum" where
  \<comment> \<open>the value as \<open>Math.min\<close> converts it: a function or an object is not a number\<close>
  "member_number m = (case m of Own v \<Rightarrow> to_number v | Builtin \<Rightarrow> NaN | Undefined \<Rightarrow> NaN)"

definition word_matches :: "(rat \<Rightarrow> rat) \<Rightarrow> string \<Rightarrow> string \<Rightarrow> jsnum \<Rightarrow> string \<Rightarrow> jsnum" where
  \<comment> \<open>one round of the first \<open>queryWords.forEach\<close>\<close>
  "word_matches rnd contentLower pathLower sc word =
     (let sc1 = (if str_includes contentLower word then num_add rnd sc (Num (rnd (2 / 10))) else sc)
      in if str_includes pathLower word then num_add rnd sc1 (Num (rnd (3 / 10))) else sc1)"

definition keyword_matches :: "(rat \<Rightarrow> rat) \<Rightarrow> histogram \<Rightarrow> jsnum \<Rightarrow> string \<Rightarrow> jsnum" where
  \<comment> \<open>one round of the second \<open>queryWords.forEach\<close>:
      \<open>score += 0.3 * Math.min(keywords[word], 5) / 5\<close>\<close>
  "keyword_matches rnd kws sc word =
     (if member_truthy (js_get kws word)
      then num_add rnd sc
             (num_div5 rnd (num_mul rnd (Num (rnd (3 / 10)))
                (num_min (member_number (js_get kws word)) (Num 5))))
      else sc)"

definition file_score ::
  "(rat \<Rightarrow> rat) \<Rightarrow> database \<Rightarrow> string \<Rightarrow> string list \<Rightarrow> string \<Rightarrow> file_record \<Rightarrow> jsnum option" where
  \<comment> \<open>the score of one file. \<open>this.db.keywords[filePath] || {}\<close> is the histogram of the
      file, or the empty object; where the file has no histogram and its path is the name
      of a member of \<open>Object.prototype\<close> that member is taken for the histogram, which is
      outside the model (\<open>None\<close>)\<close>
  "file_score rnd d queryLower queryWords path fileData =
     (let contentLower = toLowerCase (file_content fileData);
          pathLower = toLowerCase path;
          sc0 = (if str_includes contentLower queryLower
                 then num_add rnd (Num 0) (Num (rnd (5 / 10))) else Num 0);
          sc1 = foldl (word_matches rnd contentLower pathLower) sc0 queryWords
      in case js_get (file_keywords d) path of
           Own kws \<Rightarrow> Some (foldl (keyword_matches rnd kws) sc1 queryWords)
         | Undefined \<Rightarrow> Some (foldl (keyword_matches rnd []) sc1 queryWords)
         | Builtin \<Rightarrow> None)"

fun score_files ::
  "(rat \<Rightarrow> rat) \<Rightarrow> database \<Rightarrow> string \<Rightarrow> string \<Rightarrow> string list \<Rightarrow> jsnum
     \<Rightarrow> (string \<times> file_record) list \<Rightarrow> result list option" where
  \<comment> \<open>the loop over \<open>Object.entries(this.db.files)\<close>\<close>
  "score_files rnd d query queryLower queryWords minS [] = Some []"
| "score_files rnd d query queryLower queryWords minS (entry # entries) =
     (case file_score rnd d queryLower queryWords (fst entry) (snd entry) of
        None \<Rightarrow> None
      | Some sc \<Rightarrow>
          (case score_files rnd d query queryLower queryWords minS entries of
             None \<Rightarrow> None
           | Some results \<Rightarrow>
               if num_ge sc minS
               then Some (\<lparr>result_filePath = fst entry, result_score = num_min sc (Num 1),
                           result_snippet = snd (createSnippet (file_content (snd entry)) query 2),
                           result_lineNumber = fst (createSnippet (file_content (snd entry)) query 2),
                           result_matchType = ''content''\<rparr> # results)
               else Some results))"

definition by_score :: "result \<Rightarrow> result \<Rightarrow> jsnum" where
  \<comment> \<open>the comparator \<open>(a, b) => b.score - a.score\<close>\<close>
  "by_score a b = num_sub (result_score b) (result_score a)"

definition search ::
  "(rat \<Rightarrow> rat) \<Rightarrow> search_config \<Rightarrow> database \<Rightarrow> string \<Rightarrow> search_options \<Rightarrow> result list option" where
  "search rnd searchConfig d query options =
     (let maxR = (case maxResults options of None \<Rightarrow> cfg_maxResults searchConfig | Some m \<Rightarrow> m);
          minS = (case minScore options of None \<Rightarrow> cfg_minScore searchConfig | Some m \<Rightarrow> m);
          queryLower = toLowerCase query;
          queryWords = filter (\<lambda>w. length w > 2) (split_runs is_space queryLower)
      in map_option (\<lambda>results. take maxR (js_sort by_score results))
           (score_files rnd d query queryLower queryWords minS (files d)))"

section \<open>ConfigManager\<close>

record project_config =
  cfg_include :: "string list"
  cfg_exclude :: "string list"
  maxFileSize :: int
  enableFullTextSearch :: bool
  enableWatching :: bool

definition default_project_config :: project_config where
  \<comment> \<open>the section \<open>defaults\<close> of \<open>getDefaultConfig()\<close>\<close>
  "default_project_config =
     \<lparr>cfg_include =
        [''**/*.js'', ''**/*.jsx'', ''**/*.ts'', ''**/*.tsx'',
         ''**/*.java'', ''**/*.cs'', ''**/*.py'', ''**/*.rb'',
         ''**/*.php'', ''**/*.go'', ''**/*.rs'', ''**/*.cpp'', ''**/*.c'', ''**/*.h'',
         ''**/*.html'', ''**/*.htm'', ''**/*.css'', ''**/*.scss'', ''**/*.sass'',
         ''**/*.json'', ''**/*.xml'', ''**/*.yaml'', ''**/*.yml'',
         ''**/*.jsp'', ''**/*.jds'', ''**/*.jdc'',
         ''**/*.sql'', ''**/*.md'', ''**/*.txt''],
      cfg_exclude =
        [''**/node_modules/**'', ''**/target/**'', ''**/bin/**'', ''**/obj/**'',
         ''**/.git/**'', ''**/.svn/**'', ''**/.hg/**'', ''**/dist/**'', ''**/build/**'',
         ''**/*.class'', ''**/*.jar'', ''**/*.war'', ''**/*.ear'', ''**/*.dll'',
         ''**/*.exe'', ''**/*.so'', ''**/*.dylib'', ''**/*.o'', ''**/*.a'',
         ''**/*.gif'', ''**/*.png'', ''**/*.jpg'', ''**/*.jpeg'', ''**/*.svg'',
         ''**/*.ico'', ''**/*.pdf'', ''**/*.zip'', ''**/*.tar'', ''**/*.gz'',
         ''**/*.rar'', ''**/*.7z'', ''**/logs/**'', ''**/log/**'', ''**/temp/**'',
         ''**/tmp/**'', ''**/.codebase-index/**'', ''**/.indexer/**''],
      maxFileSize = 5242880,
      enableFullTextSearch = True,
      enableWatching = True\<rparr>"

definition default_search_config :: "(rat \<Rightarrow> rat) \<Rightarrow> search_config" where
  \<comment> \<open>\<open>maxResults\<close> and \<open>minScore\<close> of the section \<open>search\<close> of \<open>getDefaultConfig()\<close>\<close>
  "default_search_config rnd = \<lparr>cfg_maxResults = 10, cfg_minScore = Num (rnd (3 / 10))\<rparr>"

definition binaryExtensions :: "string list" where
  "binaryExtensions =
     [''.jpg'', ''.jpeg'', ''.png'', ''.gif'', ''.bmp'', ''.ico'', ''.svg'',
      ''.pdf'', ''.zip'', ''.tar'', ''.gz'', ''.rar'', ''.7z'',
      ''.exe'', ''.dll'', ''.so'', ''.dylib'', ''.bin'',
      ''.class'', ''.jar'', ''.war'', ''.ear'',
      ''.db'', ''.sqlite'', ''.mdb'',
      ''.mp3'', ''.mp4'', ''.avi'', ''.mov'', ''.wav'',
      ''.ttf'', ''.woff'', ''.woff2'', ''.eot'']"

definition isBinaryFile :: "env \<Rightarrow> string \<Rightarrow> bool" where
  "isBinaryFile e filePath = (getExtension e filePath \<in> set binaryExtensions)"

definition normalizePath :: "env \<Rightarrow> string \<Rightarrow> string" where
  "normalizePath e filePath = replace_all [backslash] ''/'' (path_normalize e filePath)"

fun some_match :: "string \<Rightarrow> string list \<Rightarrow> bool option" where
  \<comment> \<open>\<open>patterns.some(pattern => matchGlob(path, pattern))\<close>: the first pattern that
      matches ends the search\<close>
  "some_match path [] = Some False"
| "some_match path (pattern # patterns) =
     (case matchGlob path pattern of
        None \<Rightarrow> None
      | Some True \<Rightarrow> Some True
      | Some False \<Rightarrow> some_match path patterns)"

definition matchesAnyPattern :: "env \<Rightarrow> string \<Rightarrow> string list \<Rightarrow> bool option" where
  "matchesAnyPattern e filePath patterns = some_match (normalizePath e filePath) patterns"

definition shouldIndexFile :: "env \<Rightarrow> string \<Rightarrow> project_config \<Rightarrow> bool option" where
  "shouldIndexFile e filePath projectConfig =
     (let normalizedPath = normalizePath e filePath in
      if isBinaryFile e normalizedPath then Some False
      else
        (case matchesAnyPattern e normalizedPath (cfg_exclude projectConfig) of
           None \<Rightarrow> None
         | Some True \<Rightarrow> Some False
         | Some False \<Rightarrow>
             (case matchesAnyPattern e normalizedPath (cfg_include projectConfig) of
                None \<Rightarrow> None
              | Some True \<Rightarrow>
                  (case getStatsSafe e filePath of
                     Some st \<Rightarrow> if st_size st \<le> maxFileSize projectConfig then Some True else Some False
                   | None \<Rightarrow> Some False)
              | Some False \<Rightarrow> Some False)))"

section \<open>Notions used to state the results\<close>

definition first_seen :: "'a list \<Rightarrow> 'a list" where
  \<comment> \<open>the distinct elements of a list in the order of their first occurrence\<close>
  "first_seen ws = rev (remdups (rev ws))"

definition first_pos :: "'a list \<Rightarrow> 'a \<Rightarrow> nat" where
  \<comment> \<open>the position at which an element first occurs\<close>
  "first_pos ws w = length (takeWhile (\<lambda>x. x \<noteq> w) ws)"

definition tally :: "string list \<Rightarrow> histogram" where
  \<comment> \<open>the table of the words with their number of occurrences, in first-seen order\<close>
  "tally ws = map (\<lambda>w. (w, Count (count_list ws w))) (first_seen ws)"

definition plain_word :: "string \<Rightarrow> bool" where
  \<comment> \<open>a key that no plain object inherits and that is ordered by creation\<close>
  "plain_word w = (w \<notin> set object_prototype_names \<and> \<not> is_array_index w)"

definition count_of :: "string \<times> hval \<Rightarrow> nat" where
  "count_of e = (case snd e of Count n \<Rightarrow> n | MemberText w k \<Rightarrow> 0)"

definition is_count :: "string \<times> hval \<Rightarrow> bool" where
  "is_count e = (case snd e of Count n \<Rightarrow> True | MemberText w k \<Rightarrow> False)"

definition num_of :: "jsnum \<Rightarrow> rat" where
  \<comment> \<open>the rational that a number other than \<open>NaN\<close> is\<close>
  "num_of a = (case a of NaN \<Rightarrow> 0 | Num x \<Rightarrow> x)"

definition is_num :: "jsnum \<Rightarrow> bool" where
  "is_num a = (case a of NaN \<Rightarrow> False | Num x \<Rightarrow> True)"

definition qualifies ::
  "(rat \<Rightarrow> rat) \<Rightarrow> database \<Rightarrow> string \<Rightarrow> string list \<Rightarrow> jsnum \<Rightarrow> string \<times> file_record \<Rightarrow> jsnum \<Rightarrow> bool" where
  \<comment> \<open>the file of the entry has the score \<open>sc\<close>, and \<open>sc >= minS\<close>\<close>
  "qualifies rnd d ql qw minS entry sc =
     (file_score rnd d ql qw (fst entry) (snd entry) = Some sc \<and> num_ge sc minS)"

definition covered :: "database \<Rightarrow> bool" where
  \<comment> \<open>every file of the store has a histogram\<close>
  "covered d = (fst ` set (files d) \<subseteq> fst ` set (file_keywords d))"

section \<open>A small project used in the examples\<close>

text \<open>
  A project \<open>/proj\<close> with the files \<open>a.py\<close> and \<open>b.py\<close>, a large file \<open>big.py\<close> that
  cannot be opened, and no index document. The digest of this world is the identity: the
  results hold for every digest function.
\<close>

definition example_env :: env where
  "example_env =
     \<lparr>readFileSync = (\<lambda>p. if p = ''/proj/a.py'' then Inr ''def login(): pass''
                         else if p = ''/proj/b.py'' then Inr ''def logout(): pass''
                         else if p = ''/proj/big.py'' then Inl (''EACCES: permission denied, open '' @ p)
                         else Inl (''ENOENT: no such file or directory, open '' @ p)),
      statSync = (\<lambda>p. if p = ''/proj/a.py'' then Inr \<lparr>st_size = 17, st_mtime = ''2024-05-01T10:00:00.000Z''\<rparr>
                     else if p = ''/proj/b.py'' then Inr \<lparr>st_size = 18, st_mtime = ''2024-05-01T10:00:00.000Z''\<rparr>
                     else if p = ''/proj/big.py'' then Inr \<lparr>st_size = 6000000, st_mtime = ''2024-05-01T10:00:00.000Z''\<rparr>
                     else Inl (''ENOENT: no such file or directory, stat '' @ p)),
      existsSync = (\<lambda>p. p = ''/proj/a.py'' \<or> p = ''/proj/b.py'' \<or> p = ''/proj/big.py''),
      writeFileSync = (\<lambda>p. None),
      path_relative = (\<lambda>from to. if startsWith to (from @ ''/'') then drop (length from + 1) to else to),
      path_extname = (\<lambda>p. if endsWith p ''.py'' then ''.py'' else []),
      path_normalize = (\<lambda>p. p),
      md5 = (\<lambda>c. c),
      JSON_parse = (\<lambda>d. Inl ''Unexpected end of JSON input''),
      getTimestamp = ''2024-05-01T12:00:00.000Z''\<rparr>"

text \<open>
  A store of four text files without keywords: for the query \<open>foo bar\<close>, in exact
  arithmetic, \<open>a.txt\<close> and \<open>b.txt\<close> score 0.9, \<open>c.txt\<close> scores 0.4 and \<open>d.txt\<close> 0.2.
\<close>

definition ranking_db :: database where
  "ranking_db =
     \<lparr>files =
        [(''c.txt'', \<lparr>file_path = ''c.txt'', file_content = ''bar, foo'', file_hash = ''c3'',
                      file_size = 8, file_lines = 1, file_extension = ''.txt'',
                      modified_at = ''2024-05-01T10:00:00.000Z'', indexed_at = ''2024-05-01T12:00:00.000Z''\<rparr>),
         (''d.txt'', \<lparr>file_path = ''d.txt'', file_content = ''foo'', file_hash = ''d4'',
                      file_size = 3, file_lines = 1, file_extension = ''.txt'',
                      modified_at = ''2024-05-01T10:00:00.000Z'', indexed_at = ''2024-05-01T12:00:00.000Z''\<rparr>),
         (''a.txt'', \<lparr>file_path = ''a.txt'', file_content = ''foo bar'', file_hash = ''a1'',
                      file_size = 7, file_lines = 1, file_extension = ''.txt'',
                      modified_at = ''2024-05-01T10:00:00.000Z'', indexed_at = ''2024-05-01T12:00:00.000Z''\<rparr>),
         (''b.txt'', \<lparr>file_path = ''b.txt'', file_content = ''a foo bar b'', file_hash = ''b2'',
                      file_size = 11, file_lines = 1, file_extension = ''.txt'',
                      modified_at = ''2024-05-01T10:00:00.000Z'', indexed_at = ''2024-05-01T12:00:00.000Z''\<rparr>)],
      file_keywords = [(''c.txt'', []), (''d.txt'', []), (''a.txt'', []), (''b.txt'', [])],
      metadata = [], version = Some ''1.0.0''\<rparr>"

text \<open>
  A store of two source files, with the keywords that \<open>extractKeywords\<close> gives them.
\<close>

definition demo_db :: database where
  "demo_db =
     \<lparr>files =
        [(''src/user.js'',
          \<lparr>file_path = ''src/user.js'',
           file_content = ''class User { constructor(name) { this.name = name } }'',
           file_hash = ''u1'', file_size = 53, file_lines = 1, file_extension = ''.js'',
           modified_at = ''2024-05-01T10:00:00.000Z'', indexed_at = ''2024-05-01T12:00:00.000Z''\<rparr>),
         (''src/factory.js'',
          \<lparr>file_path = ''src/factory.js'',
           file_content = ''function makeConstructor() { return null }'',
           file_hash = ''f2'', file_size = 42, file_lines = 1, file_extension = ''.js'',
           modified_at = ''2024-05-01T10:00:00.000Z'', indexed_at = ''2024-05-01T12:00:00.000Z''\<rparr>)],
      file_keywords =
        [(''src/user.js'', extractKeywords ''class User { constructor(name) { this.name = name } }'' 20),
         (''src/factory.js'', extractKeywords ''function makeConstructor() { return null }'' 20)],
      metadata = [], version = Some ''1.0.0''\<rparr>"

section \<open>Path matcher: results\<close>

lemma split_on_not_Nil: "split_on p s \<noteq> []"
  by (induction s) (auto split: list.splits)

lemma split_on_no_sep: "\<not> list_ex p n \<Longrightarrow> split_on p n = [n]"
  by (induction n) auto

lemma split_on_at_sep:
  "p x \<Longrightarrow> split_on p (xs @ x # ys) = split_on p xs @ split_on p ys"
proof (induction xs)
  case Nil
  then show ?case by simp
next
  case (Cons a xs)
  then show ?case
    by (cases "split_on p xs") (auto simp: split_on_not_Nil)
qed

lemma last_split_on_unique:
  assumes "s = d @ n" "\<not> list_ex p n" "d = [] \<or> p (last d)"
  shows "last (split_on p s) = n"
proof (cases "d = []")
  case True
  with assms show ?thesis by (simp add: split_on_no_sep)
next
  case False
  then obtain d' x where d: "d = d' @ [x]" by (metis rev_exhaust)
  with assms False have "p x" by simp
  then show ?thesis using assms(1,2) d
    by (simp add: split_on_at_sep split_on_no_sep split_on_not_Nil)
qed

lemma last_split_on_decomp:
  "\<exists>d. s = d @ last (split_on p s) \<and> (d = [] \<or> p (last d)) \<and> \<not> list_ex p (last (split_on p s))"
proof -
  define n where "n = rev (takeWhile (\<lambda>c. \<not> p c) (rev s))"
  define d where "d = rev (dropWhile (\<lambda>c. \<not> p c) (rev s))"
  have s: "s = d @ n"
    unfolding n_def d_def by (metis rev_append rev_rev_ident takeWhile_dropWhile_id)
  have n: "\<not> list_ex p n"
    unfolding n_def by (auto simp: list_ex_iff dest: set_takeWhileD)
  have d: "d = [] \<or> p (last d)"
    unfolding d_def using hd_dropWhile [of "\<lambda>c. \<not> p c" "rev s"]
    by (auto simp: last_rev)
  have "last (split_on p s) = n"
    using s n d by (rule last_split_on_unique)
  then show ?thesis using s n d by blast
qed

lemma endsWith_suffix: "endsWith s t = suffix t s"
proof
  assume "endsWith s t"
  then have "s = take (length s - length t) s @ t"
    by (metis append_take_drop_id endsWith_def)
  then show "suffix t s" by (metis suffixI)
next
  assume "suffix t s"
  then obtain z where "s = z @ t" by (auto simp: suffix_def)
  then show "endsWith s t" by (simp add: endsWith_def)
qed

lemma ext_pattern_ext:
  assumes "ext \<noteq> []" "list_all is_word_char ext"
  shows "ext_pattern (''**/*.'' @ ext)"
  using assms by (simp add: ext_tail_def startsWith_def)

lemma word_char_not_dot: "is_word_char c \<Longrightarrow> c \<noteq> CHR ''.''"
  by (auto simp: is_word_char_def is_lower_def is_upper_def is_digit_def code_unit_def)

lemma ext_of_pattern:
  assumes "list_all is_word_char ext"
  shows "last (split_on (\<lambda>c. c = CHR ''.'') (''**/*.'' @ ext)) = ext"
proof (rule last_split_on_unique [where d = "''**/*.''"])
  show "''**/*.'' @ ext = ''**/*.'' @ ext" ..
  show "\<not> list_ex (\<lambda>c. c = CHR ''.'') ext"
    using assms word_char_not_dot by (auto simp: list_ex_iff list_all_iff)
  show "''**/*.'' = [] \<or> last ''**/*.'' = CHR ''.''" by simp
qed

lemma matchGlob_ext_branch:
  "ext_pattern P \<Longrightarrow>
   matchGlob path P =
     Some (endsWith (last (split_on is_sep path)) (CHR ''.'' # last (split_on (\<lambda>c. c = CHR ''.'') P)))"
  by (simp add: matchGlob_def Let_def)

lemma no_sep_iff: "list_all (\<lambda>c. \<not> p c) n = (\<not> list_ex p n)"
  by (simp add: list_all_iff list_ex_iff)

text \<open>
  C1. The claim: a pattern that is not of the shape \<open>**/*.<ext>\<close> is compiled with
  \<open>**\<close> matching any sequence of characters, so that every path
  \<open><dir>/node_modules/<rest>\<close> matches \<open>**/node_modules/**\<close>. The code replaces
  \<open>**\<close> by \<open>.*\<close> and only then escapes every dot, so the expression tested is
  \<open>^\.*/node_modules/\.*$\<close>, where \<open>**\<close> stands for a run of literal dots: the path
  \<open>src/node_modules/lodash/index.js\<close> is not matched.
\<close>

theorem matchGlob_node_modules_not_matched:
  "regexPattern ''**/node_modules/**'' = [backslash] @ ''.*/node_modules/'' @ [backslash] @ ''.*''
   \<and> matchGlob ''src/node_modules/lodash/index.js'' ''**/node_modules/**'' = Some False"
  by code_simp

text \<open>
  The same for every path: the pattern \<open>**/node_modules/**\<close> matches exactly the paths
  made of a run of dots, \<open>/node_modules/\<close>, and a run of dots.
\<close>

lemma re_match_literals:
  "re_match (map (\<lambda>c. (Lit c, False)) lits @ r) s = (\<exists>t. s = lits @ t \<and> re_match r t)"
proof (induction lits arbitrary: s)
  case Nil
  show ?case by simp
next
  case (Cons l lits)
  show ?case by (cases s) (auto simp: Cons.IH)
qed

lemma re_match_star_literal:
  "re_match ((Lit c, True) # r) s = (\<exists>m t. s = replicate m c @ t \<and> re_match r t)"
proof (induction s)
  case Nil
  show ?case by auto
next
  case (Cons x s)
  show ?case
  proof
    assume "re_match ((Lit c, True) # r) (x # s)"
    then consider "re_match r (x # s)" | "x = c" "re_match ((Lit c, True) # r) s" by auto
    then show "\<exists>m t. x # s = replicate m c @ t \<and> re_match r t"
    proof cases
      case 1
      then have "x # s = replicate 0 c @ (x # s) \<and> re_match r (x # s)" by simp
      then show ?thesis by blast
    next
      case 2
      then obtain m t where "s = replicate m c @ t" "re_match r t" using Cons.IH by blast
      with 2(1) have "x # s = replicate (Suc m) c @ t \<and> re_match r t" by simp
      then show ?thesis by blast
    qed
  next
    assume "\<exists>m t. x # s = replicate m c @ t \<and> re_match r t"
    then obtain m t where mt: "x # s = replicate m c @ t" "re_match r t" by blast
    show "re_match ((Lit c, True) # r) (x # s)"
    proof (cases m)
      case 0
      with mt have "t = x # s" by simp
      with mt(2) show ?thesis by simp
    next
      case (Suc k)
      with mt have "x = c" "s = replicate k c @ t" by simp_all
      with mt(2) Cons.IH show ?thesis by auto
    qed
  qed
qed

lemma node_modules_items:
  "re_items (regexPattern ''**/node_modules/**'' @ ''$'')
     = Some ((Lit (CHR ''.''), True) # map (\<lambda>c. (Lit c, False)) ''/node_modules/'' @ [(Lit (CHR ''.''), True)])"
  by code_simp

lemma matchGlob_node_modules_dots:
  "matchGlob path ''**/node_modules/**''
     = Some (\<exists>m n. path = replicate m (CHR ''.'') @ ''/node_modules/'' @ replicate n (CHR ''.''))"
proof -
  have e: "\<not> ext_pattern ''**/node_modules/**''" by code_simp
  have "matchGlob path ''**/node_modules/**''
          = Some (re_match ((Lit (CHR ''.''), True) # map (\<lambda>c. (Lit c, False)) ''/node_modules/''
                              @ [(Lit (CHR ''.''), True)]) path)"
    using e node_modules_items by (simp add: matchGlob_def regex_test_def del: ext_pattern.simps)
  also have "re_match ((Lit (CHR ''.''), True) # map (\<lambda>c. (Lit c, False)) ''/node_modules/''
                              @ [(Lit (CHR ''.''), True)]) path
      = (\<exists>m n. path = replicate m (CHR ''.'') @ ''/node_modules/'' @ replicate n (CHR ''.''))"
    unfolding re_match_star_literal re_match_literals
    by (auto simp: re_match_star_literal [of _ "[]"])
  finally show ?thesis .
qed

text \<open>
  C2. For a pattern \<open>**/*.<ext>\<close>, \<open><ext>\<close> a non-empty run of word characters,
  \<open>matchGlob\<close> returns true exactly when the last segment of the path ends with
  \<open>.<ext>\<close>. The last segment is the part \<open>name\<close> of the one decomposition
  \<open>path = dir @ name\<close> in which \<open>name\<close> holds no separator and \<open>dir\<close> is empty or
  ends with one. In particular \<open>**/*.log\<close> matches \<open>src/app.log\<close> and does not match
  \<open>src/app.log/readme.txt\<close>.
\<close>

theorem matchGlob_extension_pattern:
  assumes "ext \<noteq> []" and "list_all is_word_char ext"
  shows "matchGlob path (''**/*.'' @ ext) =
           Some (\<exists>dir name. path = dir @ name \<and> list_all (\<lambda>c. \<not> is_sep c) name
                   \<and> (dir = [] \<or> is_sep (last dir)) \<and> suffix (CHR ''.'' # ext) name)
         \<and> matchGlob ''src/app.log'' ''**/*.log'' = Some True
         \<and> matchGlob ''src/app.log/readme.txt'' ''**/*.log'' = Some False"
proof -
  let ?seg = "last (split_on is_sep path)"
  have "matchGlob path (''**/*.'' @ ext) =
          Some (endsWith ?seg (CHR ''.'' # last (split_on (\<lambda>c. c = CHR ''.'') (''**/*.'' @ ext))))"
    using ext_pattern_ext [OF assms] by (rule matchGlob_ext_branch)
  then have m: "matchGlob path (''**/*.'' @ ext) = Some (suffix (CHR ''.'' # ext) ?seg)"
    by (simp only: ext_of_pattern [OF assms(2)] endsWith_suffix)
  have "suffix (CHR ''.'' # ext) ?seg \<longleftrightarrow>
        (\<exists>dir name. path = dir @ name \<and> list_all (\<lambda>c. \<not> is_sep c) name
            \<and> (dir = [] \<or> is_sep (last dir)) \<and> suffix (CHR ''.'' # ext) name)"
    (is "?l \<longleftrightarrow> ?r")
  proof
    assume l: ?l
    obtain d where "path = d @ ?seg" "d = [] \<or> is_sep (last d)" "\<not> list_ex is_sep ?seg"
      using last_split_on_decomp [of path is_sep] by blast
    with l show ?r unfolding no_sep_iff by blast
  next
    assume ?r
    then obtain dir name where h: "path = dir @ name" "\<not> list_ex is_sep name"
      "dir = [] \<or> is_sep (last dir)" "suffix (CHR ''.'' # ext) name"
      unfolding no_sep_iff by blast
    have "?seg = name" using h(1,2,3) by (rule last_split_on_unique)
    with h(4) show ?l by simp
  qed
  with m have "matchGlob path (''**/*.'' @ ext) =
           Some (\<exists>dir name. path = dir @ name \<and> list_all (\<lambda>c. \<not> is_sep c) name
                   \<and> (dir = [] \<or> is_sep (last dir)) \<and> suffix (CHR ''.'' # ext) name)"
    by (simp only:)
  moreover have "matchGlob ''src/app.log'' ''**/*.log'' = Some True" by code_simp
  moreover have "matchGlob ''src/app.log/readme.txt'' ''**/*.log'' = Some False" by code_simp
  ultimately show ?thesis by (simp only: simp_thms)
qed

theorem matchGlob_extension_pattern_witness:
  "''ts'' \<noteq> [] \<and> list_all is_word_char ''ts''
   \<and> matchGlob ''lib/util.ts'' (''**/*.'' @ ''ts'') =
       Some (\<exists>dir name. ''lib/util.ts'' = dir @ name \<and> list_all (\<lambda>c. \<not> is_sep c) name
               \<and> (dir = [] \<or> is_sep (last dir)) \<and> suffix (CHR ''.'' # ''ts'') name)"
proof -
  have h1: "''ts'' \<noteq> []" by simp
  have h2: "list_all is_word_char ''ts''" by code_simp
  show ?thesis
    using h1 h2 matchGlob_extension_pattern [OF h1 h2, of "''lib/util.ts''"] by (simp only: simp_thms)
qed

section \<open>Keyword extraction: results\<close>

lemma first_seen_snoc:
  "first_seen (ws @ [w]) = (if w \<in> set ws then first_seen ws else first_seen ws @ [w])"
  by (simp add: first_seen_def)

lemma set_first_seen: "set (first_seen ws) = set ws"
  by (simp add: first_seen_def)

lemma distinct_first_seen: "distinct (first_seen ws)"
  by (simp add: first_seen_def)

lemma first_pos_snoc:
  "first_pos (ws @ [w]) a = (if a \<in> set ws then first_pos ws a else if a = w then length ws else Suc (length ws))"
  by (auto simp: first_pos_def takeWhile_append takeWhile_eq_all_conv)

lemma first_pos_less: "a \<in> set ws \<Longrightarrow> first_pos ws a < length ws"
  unfolding first_pos_def by (induction ws) auto

lemma first_seen_positions:
  "sorted_wrt (\<lambda>a b. first_pos ws a < first_pos ws b) (first_seen ws)"
proof (induction ws rule: rev_induct)
  case Nil
  show ?case by (simp add: first_seen_def)
next
  case (snoc w ws)
  have mono: "sorted_wrt (\<lambda>a b. first_pos (ws @ [w]) a < first_pos (ws @ [w]) b) (first_seen ws)"
    using snoc
    by (rule sorted_wrt_mono_rel [rotated]) (simp add: first_pos_snoc set_first_seen)
  show ?case
    using mono
    by (auto simp: first_seen_snoc sorted_wrt_append set_first_seen first_pos_snoc first_pos_less)
qed

lemma split_runs_chars:
  "w \<in> set (split_runs p s) \<Longrightarrow> c \<in> set w \<Longrightarrow> c \<in> set s \<and> \<not> p c"
proof (induction p s arbitrary: w rule: split_runs.induct)
  case (1 p)
  then show ?case by simp
next
  case (2 p c' cs)
  show ?case
  proof (cases "p c'")
    case True
    with 2 have "w \<in> set (split_runs p (dropWhile p cs))" by auto
    with 2(1) [OF True] 2(4) have "c \<in> set (dropWhile p cs) \<and> \<not> p c" by blast
    then show ?thesis by (auto dest: set_dropWhileD)
  next
    case False
    show ?thesis
    proof (cases "split_runs p cs")
      case Nil
      with 2 False show ?thesis by auto
    next
      case (Cons v vs)
      with 2(3) False have "w = c' # v \<or> w \<in> set vs" by auto
      then show ?thesis
      proof
        assume w: "w = c' # v"
        show ?thesis
        proof (cases "c = c'")
          case True
          with False show ?thesis by simp
        next
          case False
          with w 2(4) have "c \<in> set v" by simp
          moreover have "v \<in> set (split_runs p cs)" using Cons by simp
          ultimately show ?thesis using 2(2) [OF \<open>\<not> p c'\<close>] by auto
        qed
      next
        assume "w \<in> set vs"
        then have "w \<in> set (split_runs p cs)" using Cons by simp
        then show ?thesis using 2(2) [OF False] 2(4) by auto
      qed
    qed
  qed
qed

lemma keyword_words_chars:
  assumes "w \<in> set (keyword_words text)"
  shows "list_all (\<lambda>c. is_lower c \<or> is_digit c) w"
proof -
  let ?s = "map (\<lambda>c. if is_lower c \<or> is_digit c \<or> is_space c then c else CHR '' '') (toLowerCase text)"
  from assms have w: "w \<in> set (split_runs is_space ?s)" by (simp add: keyword_words_def)
  have "is_lower c \<or> is_digit c" if "c \<in> set w" for c
  proof -
    have c: "c \<in> set ?s \<and> \<not> is_space c" by (rule split_runs_chars [OF w that])
    then have "c \<in> set ?s" by (rule conjunct1)
    then obtain d where d: "c = (if is_lower d \<or> is_digit d \<or> is_space d then d else CHR '' '')"
      unfolding set_map by (rule imageE)
    have "is_space (CHR '' '')" by (simp add: is_space_def)
    with c d show ?thesis by (metis)
  qed
  then show ?thesis by (simp add: list_all_iff)
qed

lemma lower_digit_name:
  assumes "list_all (\<lambda>c. is_lower c \<or> is_digit c) w" "w \<in> set object_prototype_names"
  shows "w = ''constructor''"
  using assms
  by (auto simp: object_prototype_names_def is_lower_def is_digit_def code_unit_def)

lemma map_of_tally:
  "map_of (tally ws) w = (if w \<in> set ws then Some (Count (count_list ws w)) else None)"
  by (simp add: tally_def map_of_map_restrict restrict_map_def set_first_seen)

lemma keys_tally: "map fst (tally ws) = first_seen ws"
  by (simp add: tally_def comp_def)

lemma count_list_snoc: "count_list (ws @ [w]) x = count_list ws x + (if x = w then 1 else 0)"
  by (induction ws) auto

lemma count_list_zero: "x \<notin> set ws \<Longrightarrow> count_list ws x = 0"
  by (induction ws) auto

lemma tally_snoc:
  assumes "plain_word w"
  shows "count_word (tally ws) w = tally (ws @ [w])"
proof (cases "w \<in> set ws")
  case True
  then have g: "js_get (tally ws) w = Own (Count (count_list ws w))"
    by (simp add: js_get_def map_of_tally)
  have k: "w \<in> set (map fst (tally ws))" using True by (simp add: keys_tally set_first_seen)
  have "count_word (tally ws) w =
          map (\<lambda>e. if fst e = w then (w, Count (count_list ws w + 1)) else e) (tally ws)"
    using g k by (simp add: count_word_def js_put_def del: set_map)
  also have "\<dots> = tally (ws @ [w])"
    using True by (auto simp: tally_def first_seen_snoc count_list_snoc)
  finally show ?thesis .
next
  case False
  then have g: "js_get (tally ws) w = Undefined"
    using assms by (simp add: js_get_def map_of_tally plain_word_def)
  have k: "w \<notin> set (map fst (tally ws))" using False by (simp add: keys_tally set_first_seen)
  have "count_word (tally ws) w = tally ws @ [(w, Count 1)]"
    using g k assms by (simp add: count_word_def js_put_def plain_word_def del: set_map)
  also have "\<dots> = tally (ws @ [w])"
    using False
    by (auto simp: tally_def first_seen_snoc count_list_snoc count_list_zero set_first_seen)
  finally show ?thesis .
qed

lemma foldl_count_word:
  "list_all plain_word ws \<Longrightarrow> foldl count_word [] ws = tally ws"
proof (induction ws rule: rev_induct)
  case Nil
  show ?case by (simp add: tally_def first_seen_def)
next
  case (snoc w ws)
  then show ?case by (simp add: tally_snoc)
qed

lemma positive_by_frequency:
  "is_count x \<Longrightarrow> is_count y \<Longrightarrow> positive (by_frequency x y) = (count_of x < count_of y)"
  by (auto simp: is_count_def count_of_def by_frequency_def positive_def num_sub_def to_number_def
      split: hval.splits)

lemma sort_insert_counts:
  "is_count x \<Longrightarrow> list_all is_count ys \<Longrightarrow>
   sort_insert by_frequency x ys = insort_key (\<lambda>e. - int (count_of e)) x ys"
  by (induction ys) (auto simp: positive_by_frequency)

lemma is_count_insort: "is_count x \<Longrightarrow> list_all is_count ys \<Longrightarrow> list_all is_count (insort_key f x ys)"
  by (simp add: list_all_iff set_insort_key)

lemma js_sort_counts:
  "list_all is_count xs \<Longrightarrow>
   js_sort by_frequency xs = sort_key (\<lambda>e. - int (count_of e)) xs
   \<and> list_all is_count (js_sort by_frequency xs)"
proof (induction xs)
  case Nil
  show ?case by (simp add: js_sort_def)
next
  case (Cons x xs)
  from Cons.prems have px: "list_all is_count xs" "is_count x" by simp_all
  from Cons.IH [OF px(1)] px(2)
  have ih: "js_sort by_frequency xs = sort_key (\<lambda>e. - int (count_of e)) xs"
    "list_all is_count (js_sort by_frequency xs)" "is_count x" by blast+
  have "js_sort by_frequency (x # xs) = sort_insert by_frequency x (js_sort by_frequency xs)"
    by (simp add: js_sort_def)
  also have "\<dots> = insort_key (\<lambda>e. - int (count_of e)) x (js_sort by_frequency xs)"
    using ih by (simp add: sort_insert_counts)
  finally have e: "js_sort by_frequency (x # xs) = sort_key (\<lambda>e. - int (count_of e)) (x # xs)"
    using ih(1) by (simp add: sort_key_def)
  moreover have "list_all is_count (sort_key (\<lambda>e. - int (count_of e)) (x # xs))"
    using Cons.prems unfolding list_all_iff set_sort .
  ultimately show ?case by simp
qed

lemma length_js_put: "length (js_put k v obj) \<le> Suc (length obj)"
proof -
  have "length (insert_index k v es) = Suc (length es)" for es :: "(string \<times> 'a) list"
    by (induction es) auto
  then show ?thesis by (simp add: js_put_def)
qed

lemma length_fromEntries_aux:
  "length (foldl (\<lambda>obj e. js_put (fst e) (snd e) obj) acc es) \<le> length acc + length es"
proof (induction es arbitrary: acc)
  case Nil
  show ?case by simp
next
  case (Cons e es)
  have "length (foldl (\<lambda>obj e. js_put (fst e) (snd e) obj) (js_put (fst e) (snd e) acc) es)
          \<le> length (js_put (fst e) (snd e) acc) + length es" by (rule Cons.IH)
  also have "\<dots> \<le> Suc (length acc) + length es" using length_js_put [of "fst e" "snd e" acc] by simp
  finally show ?case by simp
qed

lemma length_fromEntries: "length (fromEntries es) \<le> length es"
  using length_fromEntries_aux [of "[]" es] by (simp add: fromEntries_def)

lemma fromEntries_plain_aux:
  "distinct (map fst (acc @ es)) \<Longrightarrow> list_all (\<lambda>e. \<not> is_array_index (fst e)) es \<Longrightarrow>
   foldl (\<lambda>obj e. js_put (fst e) (snd e) obj) acc es = acc @ es"
proof (induction es arbitrary: acc)
  case Nil
  show ?case by simp
next
  case (Cons e es)
  have p: "js_put (fst e) (snd e) acc = acc @ [e]"
    using Cons.prems by (auto simp: js_put_def)
  have "foldl (\<lambda>obj e. js_put (fst e) (snd e) obj) (acc @ [e]) es = (acc @ [e]) @ es"
    using Cons.prems by (intro Cons.IH) auto
  with p show ?case by simp
qed

lemma fromEntries_plain:
  "distinct (map fst es) \<Longrightarrow> list_all (\<lambda>e. \<not> is_array_index (fst e)) es \<Longrightarrow> fromEntries es = es"
  using fromEntries_plain_aux [of "[]" es] by (simp add: fromEntries_def)

lemma tally_entry:
  "e \<in> set (tally ws) \<Longrightarrow> fst e \<in> set ws \<and> snd e = Count (count_list ws (fst e))"
  by (auto simp: tally_def set_first_seen)

lemma tally_count_of: "e \<in> set (tally ws) \<Longrightarrow> is_count e \<and> count_of e = count_list ws (fst e)"
  by (auto simp: tally_def is_count_def count_of_def)

lemma distinct_keys_perm:
  assumes "distinct (map fst xs)" "set ys = set xs" "length ys = length xs"
  shows "distinct (map fst ys)"
proof -
  have "card (fst ` set xs) = length xs"
    using assms(1) by (metis distinct_card length_map set_map)
  then have "card (set (map fst ys)) = length (map fst ys)" using assms(2,3) by simp
  then show ?thesis by (rule card_distinct)
qed

lemma extractKeywords_plain:
  assumes "list_all plain_word (keyword_words text)"
  shows "extractKeywords text n =
           take n (sort_key (\<lambda>e. - int (count_of e))
                    (filter (\<lambda>e. fst e \<notin> set stopWords) (tally (keyword_words text))))"
proof -
  let ?W = "keyword_words text"
  let ?F = "filter (\<lambda>e. fst e \<notin> set stopWords) (tally ?W)"
  let ?S = "sort_key (\<lambda>e. - int (count_of e)) ?F"
  have t: "foldl count_word [] ?W = tally ?W" using assms by (rule foldl_count_word)
  have cF: "list_all is_count ?F" using tally_count_of by (auto simp: list_all_iff)
  have s: "js_sort by_frequency ?F = ?S" using js_sort_counts [OF cF] by (rule conjunct1)
  have dF: "distinct (map fst ?F)"
    by (simp add: distinct_map_filter keys_tally distinct_first_seen)
  have dS: "distinct (map fst ?S)"
    using dF by (rule distinct_keys_perm) simp_all
  have dT: "distinct (map fst (take n ?S))"
    using dS by (simp add: take_map [symmetric] distinct_take del: take_map)
  have "fst e \<in> set ?W" if "e \<in> set (take n ?S)" for e
  proof -
    from that have "e \<in> set ?S" by (rule in_set_takeD)
    then have "e \<in> set (tally ?W)" by simp
    then show ?thesis by (simp add: tally_entry)
  qed
  then have iT: "list_all (\<lambda>e. \<not> is_array_index (fst e)) (take n ?S)"
    using assms by (auto simp: list_all_iff plain_word_def)
  have "extractKeywords text n = fromEntries (take n ?S)"
    by (simp add: extractKeywords_def Let_def t s)
  also have "\<dots> = take n ?S" using dT iT by (rule fromEntries_plain)
  finally show ?thesis .
qed

lemma length_extractKeywords: "length (extractKeywords text n) \<le> n"
proof -
  have "length (extractKeywords text n) \<le>
          length (take n (js_sort by_frequency
                    (filter (\<lambda>e. fst e \<notin> set stopWords) (foldl count_word [] (keyword_words text)))))"
    unfolding extractKeywords_def Let_def by (rule length_fromEntries)
  then show ?thesis by simp
qed

lemma plain_words:
  assumes "''constructor'' \<notin> set (keyword_words text)"
      and "list_all (\<lambda>w. \<not> is_array_index w) (keyword_words text)"
  shows "list_all plain_word (keyword_words text)"
proof -
  have "plain_word w" if w: "w \<in> set (keyword_words text)" for w
  proof -
    have "w \<notin> set object_prototype_names"
      using lower_digit_name [OF keyword_words_chars [OF w]] w assms(1) by blast
    moreover have "\<not> is_array_index w" using assms(2) w by (simp add: list_all_iff)
    ultimately show ?thesis by (simp add: plain_word_def)
  qed
  then show ?thesis by (simp add: list_all_iff)
qed

text \<open>
  C6, as amended. For every text that has no token \<open>constructor\<close> and no token that is
  an array index, \<open>extractKeywords\<close> returns at most \<open>n\<close> keywords (20 by default),
  each a token of the text that is not a stop word, with its number of occurrences; the
  keywords are in descending order of frequency; for each frequency \<open>k\<close> the keywords
  of that frequency, in the order returned, are an initial part of the words of that
  frequency in first-seen order; and a word left out is no more frequent than any
  keyword returned.
\<close>

theorem extractKeywords_order:
  assumes "''constructor'' \<notin> set (keyword_words text)"
      and "list_all (\<lambda>w. \<not> is_array_index w) (keyword_words text)"
  shows "length (extractKeywords text n) \<le> n
       \<and> (\<forall>e \<in> set (extractKeywords text n).
             fst e \<in> set (keyword_words text) \<and> fst e \<notin> set stopWords
             \<and> snd e = Count (count_list (keyword_words text) (fst e)))
       \<and> sorted_wrt (\<lambda>a b. count_list (keyword_words text) (fst b) \<le> count_list (keyword_words text) (fst a))
            (extractKeywords text n)
       \<and> (\<forall>k. prefix (filter (\<lambda>w. count_list (keyword_words text) w = k) (map fst (extractKeywords text n)))
                     (filter (\<lambda>w. count_list (keyword_words text) w = k \<and> w \<notin> set stopWords)
                        (first_seen (keyword_words text))))
       \<and> (\<forall>w \<in> set (keyword_words text). w \<notin> set stopWords \<longrightarrow> w \<notin> fst ` set (extractKeywords text n) \<longrightarrow>
             (\<forall>e \<in> set (extractKeywords text n).
                count_list (keyword_words text) w \<le> count_list (keyword_words text) (fst e)))"
proof -
  let ?W = "keyword_words text"
  let ?f = "\<lambda>e. - int (count_of e)"
  let ?F = "filter (\<lambda>e. fst e \<notin> set stopWords) (tally ?W)"
  let ?S = "sort_key ?f ?F"
  let ?R = "extractKeywords text n"
  have R: "?R = take n ?S"
    using plain_words [OF assms] by (rule extractKeywords_plain)
  have inS: "e \<in> set (tally ?W) \<and> fst e \<notin> set stopWords" if "e \<in> set ?S" for e
    using that by simp
  have inR: "e \<in> set ?S" if "e \<in> set ?R" for e
    using that unfolding R by (rule in_set_takeD)
  have cnt: "count_of e = count_list ?W (fst e)" if "e \<in> set ?S" for e
    using inS [OF that] by (simp add: tally_count_of)
  have cntR: "count_of e = count_list ?W (fst e)" if "e \<in> set ?R" for e
    using cnt [OF inR [OF that]] .
  have p1: "length ?R \<le> n" by (rule length_extractKeywords)
  have p2: "\<forall>e \<in> set ?R. fst e \<in> set ?W \<and> fst e \<notin> set stopWords
              \<and> snd e = Count (count_list ?W (fst e))"
    using inR inS tally_entry by blast
  have "sorted (map ?f ?S)" by (rule sorted_sort_key)
  then have sS: "sorted_wrt (\<lambda>a b. ?f a \<le> ?f b) ?S" by (simp add: sorted_map)
  have sS': "sorted_wrt (\<lambda>a b. count_list ?W (fst b) \<le> count_list ?W (fst a)) ?S"
    using sS by (rule sorted_wrt_mono_rel [rotated]) (simp add: cnt)
  have p3: "sorted_wrt (\<lambda>a b. count_list ?W (fst b) \<le> count_list ?W (fst a)) ?R"
    unfolding R using sS' by (rule sorted_wrt_take)
  have p4: "prefix (filter (\<lambda>w. count_list ?W w = k) (map fst ?R))
                   (filter (\<lambda>w. count_list ?W w = k \<and> w \<notin> set stopWords) (first_seen ?W))" for k
  proof -
    let ?Q = "\<lambda>e. ?f e = - int k"
    have a: "filter (\<lambda>w. count_list ?W w = k) (map fst ?R) = map fst (filter ?Q ?R)"
    proof -
      have "filter (\<lambda>w. count_list ?W w = k) (map fst ?R)
              = map fst (filter (\<lambda>e. count_list ?W (fst e) = k) ?R)"
        by (simp add: filter_map comp_def)
      also have "filter (\<lambda>e. count_list ?W (fst e) = k) ?R = filter ?Q ?R"
        by (rule filter_cong) (auto dest: cntR)
      finally show ?thesis .
    qed
    have "prefix ?R ?S" unfolding R by (rule take_is_prefix)
    then have "prefix (filter ?Q ?R) (filter ?Q ?S)" by (rule filter_mono_prefix)
    then have b: "prefix (map fst (filter ?Q ?R)) (map fst (filter ?Q ?S))" by (rule map_mono_prefix)
    have "filter ?Q ?S = filter ?Q ?F" by (rule sort_key_stable)
    also have "\<dots> = filter (\<lambda>e. count_list ?W (fst e) = k \<and> fst e \<notin> set stopWords) (tally ?W)"
      by (auto intro!: filter_cong simp: tally_count_of)
    finally have "map fst (filter ?Q ?S)
                    = filter (\<lambda>w. count_list ?W w = k \<and> w \<notin> set stopWords) (map fst (tally ?W))"
      by (simp add: filter_map comp_def)
    with a b show ?thesis by (simp add: keys_tally)
  qed
  have p5: "count_list ?W w \<le> count_list ?W (fst e)"
    if w: "w \<in> set ?W" "w \<notin> set stopWords" "w \<notin> fst ` set ?R" and e: "e \<in> set ?R" for w e
  proof -
    let ?x = "(w, Count (count_list ?W w))"
    have "?x \<in> set (tally ?W)" using w(1) by (simp add: tally_def set_first_seen)
    then have xS: "?x \<in> set ?S" using w(2) by simp
    have "?x \<notin> set ?R" using w(3) by force
    have "?S = take n ?S @ drop n ?S" by simp
    then have "?x \<in> set (drop n ?S)" using xS \<open>?x \<notin> set ?R\<close> unfolding R
      by (metis Un_iff set_append)
    moreover have "e \<in> set (take n ?S)" using e unfolding R .
    moreover have "sorted_wrt (\<lambda>a b. count_list ?W (fst b) \<le> count_list ?W (fst a)) (take n ?S @ drop n ?S)"
      using sS' by simp
    ultimately have "count_list ?W (fst ?x) \<le> count_list ?W (fst e)"
      unfolding sorted_wrt_append by blast
    then show ?thesis by simp
  qed
  show ?thesis using p1 p2 p3 p4 p5 by blast
qed

theorem extractKeywords_order_witness:
  "''constructor'' \<notin> set (keyword_words ''login(user); logout(user); // login'')
   \<and> list_all (\<lambda>w. \<not> is_array_index w) (keyword_words ''login(user); logout(user); // login'')
   \<and> extractKeywords ''login(user); logout(user); // login'' 20
         = [(''login'', Count 2), (''user'', Count 2), (''logout'', Count 1)]
   \<and> length (extractKeywords ''login(user); logout(user); // login'' 20) \<le> 20
   \<and> sorted_wrt (\<lambda>a b. count_list (keyword_words ''login(user); logout(user); // login'') (fst b)
                       \<le> count_list (keyword_words ''login(user); logout(user); // login'') (fst a))
        (extractKeywords ''login(user); logout(user); // login'' 20)"
proof -
  let ?t = "''login(user); logout(user); // login''"
  have w: "keyword_words ?t = [''login'', ''user'', ''logout'', ''user'', ''login'']" by code_simp
  have h1: "''constructor'' \<notin> set (keyword_words ?t)" unfolding w by simp
  have h2: "list_all (\<lambda>w. \<not> is_array_index w) (keyword_words ?t)" unfolding w by code_simp
  have e: "extractKeywords ?t 20 = [(''login'', Count 2), (''user'', Count 2), (''logout'', Count 1)]"
    by code_simp
  show ?thesis
    using h1 h2 e extractKeywords_order [OF h1 h2, of 20] by blast
qed

text \<open>
  C6, as stated, fails on a token that is an array index: such a key comes first in the
  frequency object and in the object returned, whatever its frequency and first
  occurrence. In \<open>zeta 1000\<close> both words occur once and \<open>zeta\<close> is seen first, yet
  \<open>1000\<close> is returned first; in \<open>beta beta 2024\<close> the keyword of frequency 1 is
  returned before the keyword of frequency 2; and of twenty-one words that occur once
  each, \<open>1000\<close> being the last seen, it is \<open>tango\<close>, the twentieth, that is dropped.
\<close>

theorem extractKeywords_first_seen_counterexample:
  "keyword_words ''zeta 1000'' = [''zeta'', ''1000'']
   \<and> extractKeywords ''zeta 1000'' 20 = [(''1000'', Count 1), (''zeta'', Count 1)]
   \<and> keyword_words ''beta beta 2024'' = [''beta'', ''beta'', ''2024'']
   \<and> extractKeywords ''beta beta 2024'' 20 = [(''2024'', Count 1), (''beta'', Count 2)]
   \<and> keyword_words ''alfa bravo charlie delta echo foxtrot golf hotel india juliett kilo lima mike november oscar papa quebec romeo sierra tango 1000''
       = [''alfa'', ''bravo'', ''charlie'', ''delta'', ''echo'', ''foxtrot'', ''golf'', ''hotel'',
          ''india'', ''juliett'', ''kilo'', ''lima'', ''mike'', ''november'', ''oscar'', ''papa'',
          ''quebec'', ''romeo'', ''sierra'', ''tango'', ''1000'']
   \<and> map fst (extractKeywords ''alfa bravo charlie delta echo foxtrot golf hotel india juliett kilo lima mike november oscar papa quebec romeo sierra tango 1000'' 20)
       = [''1000'', ''alfa'', ''bravo'', ''charlie'', ''delta'', ''echo'', ''foxtrot'', ''golf'', ''hotel'',
          ''india'', ''juliett'', ''kilo'', ''lima'', ''mike'', ''november'', ''oscar'', ''papa'',
          ''quebec'', ''romeo'', ''sierra'']"
  by code_simp

text \<open>
  The token \<open>constructor\<close> is left out of C6 as amended: the frequency object inherits
  a member of that name, so the entry becomes a string instead of a count, and the
  comparator of the sort is then not a number.
\<close>

lemma extractKeywords_constructor:
  "extractKeywords ''constructor() {}'' 20 = [(''constructor'', MemberText ''constructor'' 1)]
   \<and> by_frequency (''constructor'', MemberText ''constructor'' 1) (''aaaa'', Count 2) = NaN"
  by code_simp

section \<open>Index store and indexing: results\<close>

lemma map_of_update_in_place:
  "k \<in> fst ` set obj \<Longrightarrow> map_of (map (\<lambda>e. if fst e = k then (k, v) else e) obj) k = Some v"
  by (induction obj) auto

lemma map_of_insert_index: "map_of (insert_index k v obj) k = Some v"
  by (induction obj) auto

lemma map_of_append_new: "k \<notin> fst ` set obj \<Longrightarrow> map_of (obj @ [(k, v)]) k = Some v"
  by (induction obj) auto

lemma map_of_js_put: "map_of (js_put k v obj) k = Some v"
  unfolding js_put_def
  by (simp add: map_of_update_in_place map_of_insert_index map_of_append_new del: map_of_append)

lemma files_get_files_set: "files_get (files_set k r s) k = Record r"
proof (cases "k = ''__proto__'' \<and> k \<notin> set (map fst (files (db s)))")
  case True
  then have "map_of (files (db s)) k = None" by (auto simp: map_of_eq_None_iff)
  with True show ?thesis by (auto simp: files_get_def files_set_def)
next
  case False
  then show ?thesis by (auto simp: files_get_def files_set_def map_of_js_put)
qed

lemma files_get_keywords_set: "files_get (keywords_set k h s) k' = files_get s k'"
  by (auto simp: files_get_def keywords_set_def split: option.splits)

lemma files_get_saveDatabase: "files_get (snd (saveDatabase e s)) k = files_get s k"
  by (simp add: files_get_def saveDatabase_def split: option.splits)

lemma indexFile_unchanged:
  assumes "readFileSync e filePath = Inr content"
      and "statSync e filePath = Inr st"
      and "has_hash (files_get s (getRelativePath e projectPath filePath)) (getHash e content)"
  shows "indexFile e filePath projectPath s = (Unchanged (getRelativePath e projectPath filePath), s)"
  using assms by (simp add: indexFile_def Let_def)

text \<open>
  C3. Where a call of \<open>indexFile\<close> on a file has not failed, the next call on the same
  file, in the same state of the file system, returns \<open>unchanged\<close> with the relative path
  and leaves the state of the indexer as it is: the database in memory, the document
  last written and the number of writes are the same. The file then has the hash of the
  record held for its relative path (lemma \<open>indexFile_unchanged\<close>).
\<close>

theorem indexFile_twice_unchanged:
  assumes "indexFile e filePath projectPath s = (r, s')"
      and "\<forall>p msg. r \<noteq> IndexError p msg"
  shows "indexFile e filePath projectPath s'
           = (Unchanged (getRelativePath e projectPath filePath), s')"
proof -
  let ?rel = "getRelativePath e projectPath filePath"
  from assms obtain content where c: "readFileSync e filePath = Inr content"
    by (cases "readFileSync e filePath") (auto simp: indexFile_def Let_def)
  from assms c obtain st where st: "statSync e filePath = Inr st"
    by (cases "statSync e filePath") (auto simp: indexFile_def Let_def)
  let ?h = "getHash e content"
  have "has_hash (files_get s' ?rel) ?h"
  proof (cases "has_hash (files_get s ?rel) ?h")
    case True
    with assms(1) c st have "s' = s" by (simp add: indexFile_def Let_def)
    with True show ?thesis by simp
  next
    case False
    let ?rec = "\<lparr>file_path = ?rel, file_content = content, file_hash = ?h,
                  file_size = st_size st, file_lines = countLines content,
                  file_extension = getExtension e filePath,
                  modified_at = st_mtime st, indexed_at = getTimestamp e\<rparr>"
    from assms(1) c st False
    have "s' = snd (saveDatabase e (keywords_set ?rel (extractKeywords content 20) (files_set ?rel ?rec s)))"
      by (simp add: indexFile_def Let_def)
    then have "files_get s' ?rel = Record ?rec"
      by (simp only: files_get_saveDatabase files_get_keywords_set files_get_files_set)
    then show ?thesis by (simp add: has_hash_def)
  qed
  with c st show ?thesis by (rule indexFile_unchanged)
qed

theorem indexFile_twice_unchanged_witness:
  "fst (indexFile example_env ''/proj/a.py'' ''/proj'' (IndexerCore example_env ''/index/proj.json''))
     = Indexed ''a.py'' 17
   \<and> indexFile example_env ''/proj/a.py'' ''/proj''
        (snd (indexFile example_env ''/proj/a.py'' ''/proj'' (IndexerCore example_env ''/index/proj.json'')))
     = (Unchanged ''a.py'',
        snd (indexFile example_env ''/proj/a.py'' ''/proj'' (IndexerCore example_env ''/index/proj.json'')))"
proof -
  let ?X = "indexFile example_env ''/proj/a.py'' ''/proj'' (IndexerCore example_env ''/index/proj.json'')"
  have f: "fst ?X = Indexed ''a.py'' 17" by code_simp
  have rel: "getRelativePath example_env ''/proj'' ''/proj/a.py'' = ''a.py''" by code_simp
  have h1: "?X = (fst ?X, snd ?X)" by simp
  have h2: "\<forall>p msg. fst ?X \<noteq> IndexError p msg" unfolding f by simp
  show ?thesis using f rel indexFile_twice_unchanged [OF h1 h2] by simp
qed

text \<open>
  C7. Where reading the file fails, \<open>indexFile\<close> returns \<open>error\<close> with the path given
  and the message of the error, and the state of the indexer is the one before the call:
  nothing is changed in memory and nothing is written.
\<close>

theorem indexFile_read_failure:
  assumes "readFileSync e filePath = Inl msg"
  shows "indexFile e filePath projectPath s = (IndexError filePath msg, s)"
  using assms by (simp add: indexFile_def Let_def)

theorem indexFile_read_failure_witness:
  "readFileSync example_env ''/proj/gone.py'' = Inl ''ENOENT: no such file or directory, open /proj/gone.py''
   \<and> indexFile example_env ''/proj/gone.py'' ''/proj'' (IndexerCore example_env ''/index/proj.json'')
       = (IndexError ''/proj/gone.py'' ''ENOENT: no such file or directory, open /proj/gone.py'',
          IndexerCore example_env ''/index/proj.json'')"
proof -
  have h: "readFileSync example_env ''/proj/gone.py'' = Inl ''ENOENT: no such file or directory, open /proj/gone.py''"
    by (simp add: example_env_def)
  show ?thesis using h indexFile_read_failure [OF h] by simp
qed

text \<open>
  C8. The claim: \<open>removeFile\<close> on a path without a record returns false and writes
  nothing. The code tests \<open>!!this.db.files[relativePath]\<close>, which is true as well for a
  path that names a member every object inherits: on the empty store, the removal of the
  file \<open>toString\<close> of the project returns true and writes the document.
\<close>

theorem removeFile_inherited_name:
  "files (db (IndexerCore example_env ''/index/proj.json'')) = []
   \<and> getRelativePath example_env ''/proj'' ''/proj/toString'' = ''toString''
   \<and> fst (removeFile example_env ''/proj/toString'' ''/proj''
            (IndexerCore example_env ''/index/proj.json'')) = True
   \<and> writes (snd (removeFile example_env ''/proj/toString'' ''/proj''
            (IndexerCore example_env ''/index/proj.json''))) = 1
   \<and> persisted (snd (removeFile example_env ''/proj/toString'' ''/proj''
            (IndexerCore example_env ''/index/proj.json''))) = Some empty_database"
  by code_simp

text \<open>
  For the other paths \<open>removeFile\<close> does what C8 says: without a record, and without a
  keyword entry left behind, it returns false and changes nothing; with a record it
  returns true, the path is no longer a key of the files, and the document is written.
\<close>

lemma js_delete_absent: "k \<notin> fst ` set obj \<Longrightarrow> js_delete k obj = obj"
  by (induction obj) (auto simp: js_delete_def)

lemma js_delete_keys: "k \<notin> fst ` set (js_delete k obj)"
  by (auto simp: js_delete_def)

lemma removeFile_no_record:
  assumes "files_get s (getRelativePath e projectPath filePath) = Missing"
      and "getRelativePath e projectPath filePath \<notin> fst ` set (file_keywords (db s))"
  shows "removeFile e filePath projectPath s = (False, s)"
proof -
  let ?rel = "getRelativePath e projectPath filePath"
  have "map_of (files (db s)) ?rel = None"
    using assms(1) by (auto simp: files_get_def split: option.splits)
  then have "?rel \<notin> fst ` set (files (db s))" by (simp add: map_of_eq_None_iff)
  then show ?thesis
    using assms by (simp add: removeFile_def Let_def truthy_def js_delete_absent)
qed

lemma removeFile_record:
  assumes "map_of (files (db s)) (getRelativePath e projectPath filePath) = Some r"
      and "removeFile e filePath projectPath s = (existed, s')"
  shows "existed \<and> getRelativePath e projectPath filePath \<notin> fst ` set (files (db s'))
         \<and> getAllFiles s'
             = map snd (filter (\<lambda>entry. fst entry \<noteq> getRelativePath e projectPath filePath)
                          (files (db s)))
         \<and> writes s' = writes s + 1
         \<and> (writeFileSync e (dbPath s) = None \<longrightarrow> persisted s' = Some (db s'))"
proof -
  let ?rel = "getRelativePath e projectPath filePath"
  let ?s1 = "s\<lparr>db := (db s)\<lparr>files := js_delete ?rel (files (db s)),
                              file_keywords := js_delete ?rel (file_keywords (db s))\<rparr>\<rparr>"
  have t: "truthy (files_get s ?rel)" using assms(1) by (simp add: files_get_def truthy_def)
  then have r: "existed" "s' = snd (saveDatabase e ?s1)"
    using assms(2) by (simp_all add: removeFile_def Let_def)
  have f: "files (db s') = js_delete ?rel (files (db s))"
    unfolding r(2) by (simp add: saveDatabase_def split: option.splits)
  have g: "getAllFiles s' = map snd (filter (\<lambda>entry. fst entry \<noteq> ?rel) (files (db s)))"
    by (simp add: getAllFiles_def f js_delete_def)
  have w: "writes s' = writes s + 1"
    unfolding r(2) by (simp add: saveDatabase_def split: option.splits)
  have p: "persisted s' = Some (db s')" if "writeFileSync e (dbPath s) = None"
    unfolding r(2) using that by (simp add: saveDatabase_def)
  show ?thesis using r(1) f g w p js_delete_keys [of ?rel "files (db s)"] by simp
qed

text \<open>
  C9. Where the document of the index is missing, cannot be read, or is not valid JSON,
  \<open>loadDatabase\<close> returns the empty database, in \<open>IndexerCore\<close> and in \<open>IndexerQuery\<close>
  (the model of \<open>loadDatabase\<close> has no error result: nothing is thrown), and \<open>indexFile\<close>
  on the indexer so constructed is \<open>indexFile\<close> on an empty store.
\<close>

theorem loadDatabase_fallback:
  assumes "\<not> existsSync e path
           \<or> (\<exists>err. readFileSync e path = Inl err)
           \<or> (\<exists>data err. readFileSync e path = Inr data \<and> JSON_parse e data = Inl err)"
  shows "loadDatabase e path = empty_database
       \<and> files empty_database = [] \<and> file_keywords empty_database = [] \<and> metadata empty_database = []
       \<and> query_loadDatabase e path = \<lparr>files = [], file_keywords = [], metadata = [], version = None\<rparr>
       \<and> indexFile e filePath projectPath (IndexerCore e path)
           = indexFile e filePath projectPath
               \<lparr>db = empty_database, files_proto = None, keywords_proto = None,
                dbPath = path, persisted = None, writes = 0\<rparr>"
proof -
  have l: "loadDatabase e path = empty_database"
    using assms by (auto simp: loadDatabase_def)
  have q: "query_loadDatabase e path = \<lparr>files = [], file_keywords = [], metadata = [], version = None\<rparr>"
    using assms by (auto simp: query_loadDatabase_def)
  show ?thesis using l q by (simp add: IndexerCore_def empty_database_def)
qed

theorem loadDatabase_fallback_witness:
  "existsSync example_env ''/proj/a.py''
   \<and> readFileSync example_env ''/proj/a.py'' = Inr ''def login(): pass''
   \<and> JSON_parse example_env ''def login(): pass'' = Inl ''Unexpected end of JSON input''
   \<and> loadDatabase example_env ''/proj/a.py'' = empty_database
   \<and> query_loadDatabase example_env ''/proj/a.py''
        = \<lparr>files = [], file_keywords = [], metadata = [], version = None\<rparr>"
proof -
  have r: "existsSync example_env ''/proj/a.py''
        \<and> readFileSync example_env ''/proj/a.py'' = Inr ''def login(): pass''
        \<and> JSON_parse example_env ''def login(): pass'' = Inl ''Unexpected end of JSON input''"
    by (simp add: example_env_def)
  then have h: "\<not> existsSync example_env ''/proj/a.py''
      \<or> (\<exists>err. readFileSync example_env ''/proj/a.py'' = Inl err)
      \<or> (\<exists>data err. readFileSync example_env ''/proj/a.py'' = Inr data \<and> JSON_parse example_env data = Inl err)"
    by blast
  show ?thesis using r loadDatabase_fallback [OF h] by blast
qed

text \<open>
  Every store that the indexer builds from the empty store keeps a histogram for each
  of its files; on such a store \<open>search\<close> is inside the model.
\<close>

lemma keys_insert_index: "fst ` set (insert_index k v obj) = insert k (fst ` set obj)"
  by (induction obj) auto

lemma keys_js_put: "fst ` set (js_put k v obj) = insert k (fst ` set obj)"
proof (cases "k \<in> fst ` set obj")
  case True
  have "fst ` set (map (\<lambda>e. if fst e = k then (k, v) else e) obj) = fst ` set obj"
    by (induction obj) auto
  with True show ?thesis by (auto simp: js_put_def)
next
  case False
  then show ?thesis by (auto simp: js_put_def keys_insert_index)
qed

lemma keys_js_delete: "fst ` set (js_delete k obj) = fst ` set obj - {k}"
  by (auto simp: js_delete_def)

lemma covered_empty: "covered empty_database"
  by (simp add: covered_def empty_database_def)

lemma db_saveDatabase: "db (snd (saveDatabase e s)) = db s"
  by (simp add: saveDatabase_def split: option.splits)

lemma covered_indexFile:
  assumes "covered (db s)"
  shows "covered (db (snd (indexFile e filePath projectPath s)))"
proof -
  have step: "covered (db (keywords_set k h (files_set k r s)))" for k h r
    using assms
    by (auto simp: covered_def keywords_set_def files_set_def keys_js_put)
  show ?thesis
    using assms step
    by (simp add: indexFile_def Let_def db_saveDatabase split: sum.splits)
qed

lemma covered_removeFile:
  assumes "covered (db s)"
  shows "covered (db (snd (removeFile e filePath projectPath s)))"
  using assms
  by (auto simp: removeFile_def Let_def db_saveDatabase covered_def keys_js_delete)

lemma covered_clear: "covered (db (clear e s))"
  by (simp add: clear_def db_saveDatabase covered_empty)

lemma covered_searchable:
  "covered d \<Longrightarrow>
   list_all (\<lambda>entry. fst entry \<in> fst ` set (file_keywords d)
                \<or> fst entry \<notin> set object_prototype_names) (files d)"
  by (auto simp: covered_def list_all_iff)

section \<open>Search: results\<close>

lemma sort_insert_key:
  fixes f :: "'a \<Rightarrow> 'k::linorder"
  assumes "\<forall>y \<in> set ys. positive (cmp x y) = (f y < f x)"
  shows "sort_insert cmp x ys = insort_key f x ys"
  using assms by (induction ys) (auto simp: not_less)

lemma js_sort_key:
  fixes f :: "'a \<Rightarrow> 'k::linorder"
  assumes "\<forall>x \<in> set xs. \<forall>y \<in> set xs. positive (cmp x y) = (f y < f x)"
  shows "js_sort cmp xs = sort_key f xs"
  using assms
proof (induction xs)
  case Nil
  show ?case by (simp add: js_sort_def)
next
  case (Cons x xs)
  then have ih: "js_sort cmp xs = sort_key f xs" by simp
  have "js_sort cmp (x # xs) = sort_insert cmp x (sort_key f xs)"
    using ih by (simp add: js_sort_def)
  also have "\<dots> = insort_key f x (sort_key f xs)"
    using Cons.prems by (intro sort_insert_key) simp
  finally show ?case by (simp add: sort_key_def)
qed

lemma num_ge_is_num: "num_ge a b \<Longrightarrow> is_num a \<and> is_num b"
  by (auto simp: num_ge_def is_num_def split: jsnum.splits)

lemma is_num_min: "is_num a \<Longrightarrow> is_num (num_min a (Num c))"
  by (auto simp: num_min_def is_num_def split: jsnum.splits)

lemma positive_by_score:
  "is_num (result_score x) \<Longrightarrow> is_num (result_score y) \<Longrightarrow>
   positive (by_score x y) = (- num_of (result_score y) < - num_of (result_score x))"
  by (auto simp: by_score_def positive_def num_sub_def is_num_def num_of_def split: jsnum.splits)

lemma num_ge_num_of: "is_num a \<Longrightarrow> is_num b \<Longrightarrow> num_ge a b = (num_of b \<le> num_of a)"
  by (auto simp: num_ge_def is_num_def num_of_def split: jsnum.splits)

lemma score_files_sound:
  "score_files rnd d q ql qw minS fs = Some rs \<Longrightarrow> r \<in> set rs \<Longrightarrow>
   \<exists>entry sc. entry \<in> set fs \<and> qualifies rnd d ql qw minS entry sc
      \<and> result_filePath r = fst entry \<and> result_score r = num_min sc (Num 1)"
proof (induction fs arbitrary: rs)
  case Nil
  then show ?case by simp
next
  case (Cons entry fs)
  from Cons.prems(1) obtain sc rs' where
    sc: "file_score rnd d ql qw (fst entry) (snd entry) = Some sc" and
    rs': "score_files rnd d q ql qw minS fs = Some rs'"
    by (auto split: option.splits)
  show ?case
  proof (cases "r \<in> set rs'")
    case True
    from Cons.IH [OF rs' True] show ?thesis by auto
  next
    case False
    with Cons.prems sc rs' have "num_ge sc minS" "result_filePath r = fst entry"
      "result_score r = num_min sc (Num 1)"
      by (auto split: if_splits)
    with sc have "entry \<in> set (entry # fs) \<and> qualifies rnd d ql qw minS entry sc
        \<and> result_filePath r = fst entry \<and> result_score r = num_min sc (Num 1)"
      by (simp add: qualifies_def)
    then show ?thesis by blast
  qed
qed

lemma score_files_complete:
  "score_files rnd d q ql qw minS fs = Some rs \<Longrightarrow> entry \<in> set fs \<Longrightarrow>
   qualifies rnd d ql qw minS entry sc \<Longrightarrow>
   \<exists>r \<in> set rs. result_filePath r = fst entry \<and> result_score r = num_min sc (Num 1)"
proof (induction fs arbitrary: rs)
  case Nil
  then show ?case by simp
next
  case (Cons e fs)
  from Cons.prems(1) obtain sc' rs' where
    sc': "file_score rnd d ql qw (fst e) (snd e) = Some sc'" and
    rs': "score_files rnd d q ql qw minS fs = Some rs'"
    by (auto split: option.splits)
  have sub: "set rs' \<subseteq> set rs" using Cons.prems(1) sc' rs' by (auto split: if_splits)
  show ?case
  proof (cases "entry = e")
    case True
    with Cons.prems(3) sc' have "sc' = sc" "num_ge sc minS" by (auto simp: qualifies_def)
    with Cons.prems(1) sc' rs' True show ?thesis by auto
  next
    case False
    with Cons.prems(2) have "entry \<in> set fs" by simp
    from Cons.IH [OF rs' this Cons.prems(3)] sub show ?thesis by blast
  qed
qed

lemma score_files_total:
  "list_all (\<lambda>entry. file_score rnd d ql qw (fst entry) (snd entry) \<noteq> None) fs \<Longrightarrow>
   \<exists>rs. score_files rnd d q ql qw minS fs = Some rs"
  by (induction fs) auto

lemma file_score_defined:
  "p \<in> fst ` set (file_keywords d) \<or> p \<notin> set object_prototype_names \<Longrightarrow>
   file_score rnd d ql qw p fd \<noteq> None"
  by (auto simp: file_score_def Let_def js_get_def map_of_eq_None_iff split: option.splits member.splits)

lemma search_results_general:
  fixes rnd cfg d query opts
  defines "limit \<equiv> (case maxResults opts of None \<Rightarrow> cfg_maxResults cfg | Some m \<Rightarrow> m)"
      and "threshold \<equiv> (case minScore opts of None \<Rightarrow> cfg_minScore cfg | Some m \<Rightarrow> m)"
      and "ql \<equiv> toLowerCase query"
      and "qw \<equiv> filter (\<lambda>w. length w > 2) (split_runs is_space (toLowerCase query))"
  assumes wf: "list_all (\<lambda>entry. fst entry \<in> fst ` set (file_keywords d)
                           \<or> fst entry \<notin> set object_prototype_names) (files d)"
  shows "\<exists>rs. search rnd cfg d query opts = Some rs
          \<and> length rs \<le> limit
          \<and> sorted_wrt (\<lambda>a b. num_ge (result_score a) (result_score b)) rs
          \<and> (\<forall>r \<in> set rs. \<exists>entry sc. entry \<in> set (files d)
                \<and> qualifies rnd d ql qw threshold entry sc
                \<and> result_filePath r = fst entry \<and> result_score r = num_min sc (Num 1))
          \<and> (\<forall>entry \<in> set (files d). \<forall>sc. qualifies rnd d ql qw threshold entry sc \<longrightarrow>
                fst entry \<notin> result_filePath ` set rs \<longrightarrow>
                length rs = limit \<and> (\<forall>r \<in> set rs. num_ge (result_score r) (num_min sc (Num 1))))"
proof -
  let ?f = "\<lambda>r. - num_of (result_score r)"
  have "list_all (\<lambda>entry. file_score rnd d ql qw (fst entry) (snd entry) \<noteq> None) (files d)"
    using wf file_score_defined unfolding list_all_iff by blast
  then obtain Q where Q: "score_files rnd d query ql qw threshold (files d) = Some Q"
    using score_files_total by blast
  have sound: "\<exists>entry sc. entry \<in> set (files d) \<and> qualifies rnd d ql qw threshold entry sc
                 \<and> result_filePath r = fst entry \<and> result_score r = num_min sc (Num 1)"
    if "r \<in> set Q" for r using score_files_sound [OF Q that] .
  have num: "is_num (result_score r)" if "r \<in> set Q" for r
  proof -
    from sound [OF that] obtain entry sc where
      q: "qualifies rnd d ql qw threshold entry sc" and r: "result_score r = num_min sc (Num 1)"
      by blast
    from q have "num_ge sc threshold" by (simp add: qualifies_def)
    then have "is_num sc" by (blast dest: num_ge_is_num)
    then show ?thesis unfolding r by (rule is_num_min)
  qed
  have "js_sort by_score Q = sort_key ?f Q"
    by (rule js_sort_key) (simp add: positive_by_score num)
  then have S: "search rnd cfg d query opts = Some (take limit (sort_key ?f Q))"
    using Q by (simp add: search_def Let_def limit_def threshold_def ql_def qw_def)
  let ?S = "sort_key ?f Q"
  let ?R = "take limit ?S"
  have inS: "r \<in> set Q" if "r \<in> set ?S" for r using that by simp
  have inR: "r \<in> set ?S" if "r \<in> set ?R" for r using that by (rule in_set_takeD)
  have "sorted (map ?f ?S)" by (rule sorted_sort_key)
  then have "sorted_wrt (\<lambda>a b. ?f a \<le> ?f b) ?S" by (simp add: sorted_map)
  then have sS: "sorted_wrt (\<lambda>a b. num_ge (result_score a) (result_score b)) ?S"
    by (rule sorted_wrt_mono_rel [rotated]) (simp add: num_ge_num_of num)
  have p1: "length ?R \<le> limit" by simp
  have p2: "sorted_wrt (\<lambda>a b. num_ge (result_score a) (result_score b)) ?R"
    using sS by (rule sorted_wrt_take)
  have p3: "\<forall>r \<in> set ?R. \<exists>entry sc. entry \<in> set (files d)
                \<and> qualifies rnd d ql qw threshold entry sc
                \<and> result_filePath r = fst entry \<and> result_score r = num_min sc (Num 1)"
    using sound inS inR by blast
  have p4: "length ?R = limit \<and> (\<forall>r \<in> set ?R. num_ge (result_score r) (num_min sc (Num 1)))"
    if e: "entry \<in> set (files d)" "qualifies rnd d ql qw threshold entry sc"
       "fst entry \<notin> result_filePath ` set ?R" for entry sc
  proof -
    from score_files_complete [OF Q e(1,2)] obtain x where
      x: "x \<in> set Q" "result_filePath x = fst entry" "result_score x = num_min sc (Num 1)" by blast
    have "x \<notin> set ?R" using e(3) x(2) by force
    moreover have "x \<in> set ?S" using x(1) by simp
    moreover have app: "?S = take limit ?S @ drop limit ?S" by simp
    ultimately have xd: "x \<in> set (drop limit ?S)" by (metis Un_iff set_append)
    then have "drop limit ?S \<noteq> []" by auto
    then have len: "length ?R = limit" by simp
    have "sorted_wrt (\<lambda>a b. num_ge (result_score a) (result_score b)) (take limit ?S @ drop limit ?S)"
      using sS by simp
    then have "\<forall>r \<in> set ?R. num_ge (result_score r) (result_score x)"
      using xd unfolding sorted_wrt_append by blast
    with len x(3) show ?thesis by simp
  qed
  show ?thesis using S p1 p2 p3 p4 by blast
qed

text \<open>
  C4. The claim: the score of a file is the sum of the terms of the formula, for every
  query. The code reads \<open>keywords[word]\<close> without asking whether the word is an own
  property of the histogram: for the query word \<open>constructor\<close> the value read is the
  inherited member of that name, \<open>Math.min\<close> makes it \<open>NaN\<close>, the score is \<open>NaN\<close>, and
  \<open>NaN >= minScore\<close> is false. The file \<open>src/factory.js\<close> holds the query verbatim and
  has no keyword \<open>constructor\<close>, so that the formula gives it 0.5 + 0.2; the search
  returns nothing, whatever the rounding.
\<close>

theorem search_constructor_query:
  "js_get (the (map_of (file_keywords demo_db) ''src/factory.js'')) ''constructor'' = Builtin
   \<and> str_includes (toLowerCase (file_content (the (map_of (files demo_db) ''src/factory.js'')))) ''constructor''
   \<and> file_score rnd demo_db ''constructor'' [''constructor''] ''src/factory.js''
         (the (map_of (files demo_db) ''src/factory.js'')) = Some NaN
   \<and> search rnd (default_search_config rnd) demo_db ''constructor''
         \<lparr>maxResults = None, minScore = None\<rparr> = Some []"
  by code_simp

text \<open>
  C5. On a store in which every file has its histogram (or a path that names no member
  of \<open>Object.prototype\<close>), \<open>search\<close> returns a list \<open>rs\<close>: of at most \<open>maxResults\<close>
  entries; in descending order of score; each entry the file of the store with a score
  \<open>sc >= minScore\<close>, reported as \<open>min(sc, 1)\<close>; and a file with such a score that is not
  in the list is left out only by a full list, every entry of which scores at least as
  much. The values used where the options give none are those of the configuration,
  10 and 0.3 by default. For files that score 0.4, 0.2, 0.9 and 0.9, \<open>maxResults = 2\<close>
  returns the two files that score 0.9; without a limit given, the file that scores 0.2
  is still left out.
\<close>

theorem search_results:
  fixes rnd cfg d query opts
  defines "limit \<equiv> (case maxResults opts of None \<Rightarrow> cfg_maxResults cfg | Some m \<Rightarrow> m)"
      and "threshold \<equiv> (case minScore opts of None \<Rightarrow> cfg_minScore cfg | Some m \<Rightarrow> m)"
      and "ql \<equiv> toLowerCase query"
      and "qw \<equiv> filter (\<lambda>w. length w > 2) (split_runs is_space (toLowerCase query))"
  assumes wf: "list_all (\<lambda>entry. fst entry \<in> fst ` set (file_keywords d)
                           \<or> fst entry \<notin> set object_prototype_names) (files d)"
  shows "(\<exists>rs. search rnd cfg d query opts = Some rs
          \<and> length rs \<le> limit
          \<and> sorted_wrt (\<lambda>a b. num_ge (result_score a) (result_score b)) rs
          \<and> (\<forall>r \<in> set rs. \<exists>entry sc. entry \<in> set (files d)
                \<and> qualifies rnd d ql qw threshold entry sc
                \<and> result_filePath r = fst entry \<and> result_score r = num_min sc (Num 1))
          \<and> (\<forall>entry \<in> set (files d). \<forall>sc. qualifies rnd d ql qw threshold entry sc \<longrightarrow>
                fst entry \<notin> result_filePath ` set rs \<longrightarrow>
                length rs = limit \<and> (\<forall>r \<in> set rs. num_ge (result_score r) (num_min sc (Num 1)))))
       \<and> cfg_maxResults (default_search_config rnd) = 10
       \<and> cfg_minScore (default_search_config rnd) = Num (rnd (3 / 10))
       \<and> map_option (map (\<lambda>r. (result_filePath r, result_score r)))
           (search (\<lambda>x. x) (default_search_config (\<lambda>x. x)) ranking_db ''foo bar''
              \<lparr>maxResults = Some 2, minScore = None\<rparr>)
         = Some [(''a.txt'', Num (9 / 10)), (''b.txt'', Num (9 / 10))]
       \<and> map_option (map (\<lambda>r. (result_filePath r, result_score r)))
           (search (\<lambda>x. x) (default_search_config (\<lambda>x. x)) ranking_db ''foo bar''
              \<lparr>maxResults = None, minScore = None\<rparr>)
         = Some [(''a.txt'', Num (9 / 10)), (''b.txt'', Num (9 / 10)), (''c.txt'', Num (4 / 10))]"
proof -
  note g = search_results_general [OF wf, of rnd cfg query opts, folded limit_def threshold_def ql_def qw_def]
  have d1: "cfg_maxResults (default_search_config rnd) = 10
       \<and> cfg_minScore (default_search_config rnd) = Num (rnd (3 / 10))"
    by (simp add: default_search_config_def)
  have e1: "map_option (map (\<lambda>r. (result_filePath r, result_score r)))
           (search (\<lambda>x. x) (default_search_config (\<lambda>x. x)) ranking_db ''foo bar''
              \<lparr>maxResults = Some 2, minScore = None\<rparr>)
         = Some [(''a.txt'', Num (9 / 10)), (''b.txt'', Num (9 / 10))]"
    by code_simp
  have e2: "map_option (map (\<lambda>r. (result_filePath r, result_score r)))
           (search (\<lambda>x. x) (default_search_config (\<lambda>x. x)) ranking_db ''foo bar''
              \<lparr>maxResults = None, minScore = None\<rparr>)
         = Some [(''a.txt'', Num (9 / 10)), (''b.txt'', Num (9 / 10)), (''c.txt'', Num (4 / 10))]"
    by code_simp
  show ?thesis using g d1 e1 e2 by (simp only: simp_thms)
qed

theorem search_results_witness:
  "map fst (files ranking_db) = map fst (file_keywords ranking_db)
   \<and> (\<exists>rs. search (\<lambda>x. x) (default_search_config (\<lambda>x. x)) ranking_db ''foo bar''
              \<lparr>maxResults = Some 2, minScore = None\<rparr> = Some rs
          \<and> length rs \<le> 2
          \<and> sorted_wrt (\<lambda>a b. num_ge (result_score a) (result_score b)) rs)"
proof -
  have k: "map fst (files ranking_db) = map fst (file_keywords ranking_db)"
    by (simp add: ranking_db_def)
  have h: "list_all (\<lambda>entry. fst entry \<in> fst ` set (file_keywords ranking_db)
                \<or> fst entry \<notin> set object_prototype_names) (files ranking_db)"
    by (simp add: ranking_db_def)
  show ?thesis
    using k search_results [OF h, of "\<lambda>x. x" "default_search_config (\<lambda>x. x)" "''foo bar''"
        "\<lparr>maxResults = Some 2, minScore = None\<rparr>"]
    by auto
qed

section \<open>Configuration: results\<close>

text \<open>
  C10. \<open>shouldIndexFile\<close> returns true only if the size of the file can be read and is at
  most \<open>maxFileSize\<close>, 5242880 by default: a file that is not binary, matches no exclude
  pattern and matches an include pattern is rejected where its stats cannot be read or
  its size is above \<open>maxFileSize\<close>.
\<close>

theorem shouldIndexFile_size_gate:
  "(shouldIndexFile e filePath cfg = Some True \<longrightarrow>
      (\<exists>st. statSync e filePath = Inr st \<and> st_size st \<le> maxFileSize cfg))
   \<and> maxFileSize default_project_config = 5242880
   \<and> (\<not> isBinaryFile e (normalizePath e filePath)
        \<and> matchesAnyPattern e (normalizePath e filePath) (cfg_exclude cfg) = Some False
        \<and> matchesAnyPattern e (normalizePath e filePath) (cfg_include cfg) = Some True
        \<and> (getStatsSafe e filePath = None
             \<or> (\<exists>st. getStatsSafe e filePath = Some st \<and> maxFileSize cfg < st_size st))
       \<longrightarrow> shouldIndexFile e filePath cfg = Some False)"
proof -
  have a: "\<exists>st. statSync e filePath = Inr st \<and> st_size st \<le> maxFileSize cfg"
    if "shouldIndexFile e filePath cfg = Some True"
    using that
    by (auto simp: shouldIndexFile_def Let_def getStatsSafe_def
        split: if_splits option.splits bool.splits sum.splits)
  have b: "maxFileSize default_project_config = 5242880"
    by (simp add: default_project_config_def)
  have c: "shouldIndexFile e filePath cfg = Some False"
    if "\<not> isBinaryFile e (normalizePath e filePath)"
       "matchesAnyPattern e (normalizePath e filePath) (cfg_exclude cfg) = Some False"
       "matchesAnyPattern e (normalizePath e filePath) (cfg_include cfg) = Some True"
       "getStatsSafe e filePath = None
          \<or> (\<exists>st. getStatsSafe e filePath = Some st \<and> maxFileSize cfg < st_size st)"
    using that by (auto simp: shouldIndexFile_def Let_def)
  show ?thesis using a b c by blast
qed

theorem shouldIndexFile_size_gate_witness:
  "shouldIndexFile example_env ''/proj/a.py'' default_project_config = Some True
   \<and> (\<exists>st. statSync example_env ''/proj/a.py'' = Inr st \<and> st_size st \<le> maxFileSize default_project_config)
   \<and> \<not> isBinaryFile example_env (normalizePath example_env ''/proj/big.py'')
   \<and> matchesAnyPattern example_env (normalizePath example_env ''/proj/big.py'')
         (cfg_exclude default_project_config) = Some False
   \<and> matchesAnyPattern example_env (normalizePath example_env ''/proj/big.py'')
         (cfg_include default_project_config) = Some True
   \<and> (\<exists>st. getStatsSafe example_env ''/proj/big.py'' = Some st
             \<and> maxFileSize default_project_config < st_size st)
   \<and> shouldIndexFile example_env ''/proj/big.py'' default_project_config = Some False"
proof -
  have n: "normalizePath example_env ''/proj/a.py'' = ''/proj/a.py''"
          "normalizePath example_env ''/proj/big.py'' = ''/proj/big.py''" by code_simp+
  have bin: "\<not> isBinaryFile example_env ''/proj/a.py''" "\<not> isBinaryFile example_env ''/proj/big.py''"
    by code_simp+
  have ex: "matchesAnyPattern example_env ''/proj/a.py'' (cfg_exclude default_project_config) = Some False"
           "matchesAnyPattern example_env ''/proj/big.py'' (cfg_exclude default_project_config) = Some False"
    by code_simp+
  have inc: "matchesAnyPattern example_env ''/proj/a.py'' (cfg_include default_project_config) = Some True"
            "matchesAnyPattern example_env ''/proj/big.py'' (cfg_include default_project_config) = Some True"
    by code_simp+
  have st: "getStatsSafe example_env ''/proj/a.py'' = Some \<lparr>st_size = 17, st_mtime = ''2024-05-01T10:00:00.000Z''\<rparr>"
           "getStatsSafe example_env ''/proj/big.py'' = Some \<lparr>st_size = 6000000, st_mtime = ''2024-05-01T10:00:00.000Z''\<rparr>"
    by (simp_all add: getStatsSafe_def example_env_def)
  have m: "maxFileSize default_project_config = 5242880" by (simp add: default_project_config_def)
  have t: "shouldIndexFile example_env ''/proj/a.py'' default_project_config = Some True"
    by (simp add: shouldIndexFile_def Let_def n bin ex inc st m)
  have big: "\<exists>st. getStatsSafe example_env ''/proj/big.py'' = Some st
                \<and> maxFileSize default_project_config < st_size st"
    by (simp add: st m)
  show ?thesis
    using t big bin(2) ex(2) inc(2) n
      shouldIndexFile_size_gate [of example_env "''/proj/a.py''" default_project_config]
      shouldIndexFile_size_gate [of example_env "''/proj/big.py''" default_project_config]
    by simp
qed

end
